theory Spec2Isabelle
  imports Main "HOL-Library.Word" "HOL-Library.Sublist" "HOL-Library.AList" "HOL-Library.Monad_Syntax"
begin

section \<open>The branch registry of GoSymbols (symbol/branch.go)\<close>

text \<open>
  A shallow embedding of \<^verbatim>\<open>symbol/branch.go\<close>. Strings are byte lists, Go's \<^verbatim>\<open>int\<close> is a
  64-bit word, an \<^verbatim>\<open>error\<close> is a value, files are contents that may fail to open, and
  the callbacks handed to the parsers carry a state of their own.
\<close>

subsection \<open>Go library functions used by the source\<close>

type_synonym go_int = "64 word"

text \<open>
  The two error values that the file declares, an error of the operating system, and an
  error of package \<^verbatim>\<open>encoding/gob\<close>.
\<close>

datatype error = ErrBuildNotExist | ErrInvalidLatestBuild | OSError string | GobError string

text \<open>A file that cannot be opened is the error of \<^verbatim>\<open>os.OpenFile\<close>, otherwise its bytes.\<close>

type_synonym osfile = "error + string"

definition nl :: char where
  "nl = CHR 0x0A"

definition cr :: char where
  "cr = CHR 0x0D"

text \<open>
  \<^verbatim>\<open>bufio.Reader.ReadString('\n')\<close> on the unread bytes: the bytes up to and including the
  first newline and the bytes left; at end of input, the bytes read so far together with
  \<^verbatim>\<open>io.EOF\<close> (the flag).
\<close>

definition ReadString :: "string \<Rightarrow> string \<times> string \<times> bool" where
  "ReadString r =
     (case dropWhile (\<lambda>c. c \<noteq> nl) r of
        [] \<Rightarrow> (r, [], True)
      | _ # rest \<Rightarrow> (takeWhile (\<lambda>c. c \<noteq> nl) r @ [nl], rest, False))"

text \<open>
  The loop head of both parsers,
  \<^verbatim>\<open>for { str, err := r.ReadString('\n'); if err == io.EOF { break }; ... }\<close>,
  yields these strings to the loop body, one after the other. The bytes \<open>acc\<close> read since
  the last newline are dropped when the input ends.
\<close>

fun readLines :: "string \<Rightarrow> string \<Rightarrow> string list" where
  "readLines acc [] = []"
| "readLines acc (c # cs) =
     (if c = nl then (acc @ [c]) # readLines [] cs else readLines (acc @ [c]) cs)"

text \<open>\<^verbatim>\<open>strings.Trim(s, cutset)\<close>: leading and trailing bytes of the cutset removed.\<close>

definition Trim :: "string \<Rightarrow> string \<Rightarrow> string" where
  "Trim s cutset =
     rev (dropWhile (\<lambda>c. c \<in> set cutset) (rev (dropWhile (\<lambda>c. c \<in> set cutset) s)))"

text \<open>\<^verbatim>\<open>strings.Split(s, sep)\<close> for a separator of one byte, as at every call site.\<close>

fun Split :: "string \<Rightarrow> char \<Rightarrow> string list" where
  "Split [] sep = [[]]"
| "Split (c # cs) sep =
     (if c = sep then [] # Split cs sep
      else (case Split cs sep of [] \<Rightarrow> [[c]] | f # fs \<Rightarrow> (c # f) # fs))"

text \<open>
  \<^verbatim>\<open>strings.ToLower\<close> on a string of ASCII bytes, the first branch of the library
  function: the letters \<open>A..Z\<close> are lowered byte by byte. A byte outside \<open>A..Z\<close> is kept.
\<close>

definition lowerByte :: "char \<Rightarrow> char" where
  "lowerByte c =
     (let n = (of_char c :: nat) in if 65 \<le> n \<and> n \<le> 90 then char_of (n + 32) else c)"

definition ToLower :: "string \<Rightarrow> string" where
  "ToLower s = map lowerByte s"

text \<open>\<^verbatim>\<open>strings.Index(s, sub)\<close>: the first position of \<open>sub\<close> in \<open>s\<close>, or \<open>-1\<close>.\<close>

fun Index :: "string \<Rightarrow> string \<Rightarrow> int" where
  "Index [] sub = (if sub = [] then 0 else - 1)"
| "Index (c # cs) sub =
     (if prefix sub (c # cs) then 0
      else (let i = Index cs sub in if i = - 1 then - 1 else i + 1))"

subsection \<open>Package time, for the two layouts of the source\<close>

record Civil =
  year :: nat
  month :: nat
  day :: nat
  hour :: nat
  minute :: nat
  second :: nat

definition isDigit :: "char \<Rightarrow> bool" where
  "isDigit c = (48 \<le> (of_char c :: nat) \<and> (of_char c :: nat) \<le> 57)"

definition digitVal :: "char \<Rightarrow> nat" where
  "digitVal c = of_char c - 48"

text \<open>\<^verbatim>\<open>getnum(s, fixed)\<close>: one or two digits; with \<open>fixed\<close>, two.\<close>

definition getnum :: "string \<Rightarrow> bool \<Rightarrow> (nat \<times> string) option" where
  "getnum s fixed =
     (case s of
        [] \<Rightarrow> None
      | c # r \<Rightarrow>
          if \<not> isDigit c then None
          else (case r of
                  [] \<Rightarrow> if fixed then None else Some (digitVal c, r)
                | d # r' \<Rightarrow>
                    if \<not> isDigit d then (if fixed then None else Some (digitVal c, r))
                    else Some (digitVal c * 10 + digitVal d, r')))"

definition cutspace :: "string \<Rightarrow> string" where
  "cutspace s = dropWhile (\<lambda>c. c = CHR '' '') s"

text \<open>
  \<^verbatim>\<open>skip(value, prefix)\<close>: the literal text of the layout between two fields. A space of
  the layout stands for any number of spaces of the value.
\<close>

function skip :: "string \<Rightarrow> string \<Rightarrow> string option" where
  "skip v [] = Some v"
| "skip v (p # ps) =
     (if p = CHR '' '' then
        (if v \<noteq> [] \<and> hd v \<noteq> CHR '' '' then None else skip (cutspace v) (cutspace ps))
      else (case v of [] \<Rightarrow> None | c # r \<Rightarrow> if c \<noteq> p then None else skip r ps))"
  by pat_completeness auto
termination
  by (relation "measure (\<lambda>(v, p). length p)")
     (auto simp: cutspace_def intro: le_imp_less_Suc length_dropWhile_le)

text \<open>\<^verbatim>\<open>atoi\<close> on the four bytes of a year, the first of which is a digit.\<close>

definition atoi :: "string \<Rightarrow> nat option" where
  "atoi p = (if list_all isDigit p then Some (foldl (\<lambda>a c. a * 10 + digitVal c) 0 p) else None)"

definition isLeap :: "nat \<Rightarrow> bool" where
  "isLeap y = (y mod 4 = 0 \<and> (y mod 100 \<noteq> 0 \<or> y mod 400 = 0))"

definition daysIn :: "nat \<Rightarrow> nat \<Rightarrow> nat" where
  "daysIn m y =
     (if m = 2 then (if isLeap y then 29 else 28)
      else if m = 4 \<or> m = 6 \<or> m = 9 \<or> m = 11 then 30 else 31)"

text \<open>
  \<^verbatim>\<open>time.ParseInLocation("01/02/2006 15:04:05", value, time.Local)\<close>, field by field as
  \<^verbatim>\<open>Parse\<close> walks the layout: month and day of two digits, a year of four, an hour of
  one or two digits, minute and second of two; a fraction of a second after the seconds
  (a period and digits; the value, made of comma-separated fields, holds no comma) is
  read and dropped; nothing may follow; the day must exist in the month. \<open>None\<close> is the
  parse error.
\<close>

definition guard :: "bool \<Rightarrow> unit option" where
  "guard c = (if c then Some () else None)"

definition parseDate :: "string \<Rightarrow> Civil option" where
  "parseDate value = do {
     (mo, v) \<leftarrow> getnum value True;
     guard (0 < mo \<and> mo \<le> 12);
     v \<leftarrow> skip v ''/'';
     (d, v) \<leftarrow> getnum v True;
     v \<leftarrow> skip v ''/'';
     guard (4 \<le> length v \<and> isDigit (hd v));
     y \<leftarrow> atoi (take 4 v);
     v \<leftarrow> skip (drop 4 v) '' '';
     (h, v) \<leftarrow> getnum v False;
     guard (h < 24);
     v \<leftarrow> skip v '':'';
     (mi, v) \<leftarrow> getnum v True;
     guard (mi < 60);
     v \<leftarrow> skip v '':'';
     (s, v) \<leftarrow> getnum v True;
     guard (s < 60);
     v \<leftarrow> Some (if 2 \<le> length v \<and> hd v = CHR ''.'' \<and> isDigit (v ! 1)
                then dropWhile isDigit (tl v) else v);
     guard (v = []);
     guard (1 \<le> d \<and> d \<le> daysIn mo y);
     Some \<lparr>year = y, month = mo, day = d, hour = h, minute = mi, second = s\<rparr>
   }"

text \<open>\<^verbatim>\<open>appendInt(b, x, width)\<close>: decimal digits, padded with zeros to the width.\<close>

fun decimal :: "nat \<Rightarrow> string" where
  "decimal n =
     (if n < 10 then [''0123456789'' ! n]
      else decimal (n div 10) @ [''0123456789'' ! (n mod 10)])"

declare decimal.simps [simp del]

definition appendInt :: "nat \<Rightarrow> nat \<Rightarrow> string" where
  "appendInt x width = replicate (width - length (decimal x)) (CHR ''0'') @ decimal x"

text \<open>\<^verbatim>\<open>t.Format("2006-01-02 15:04:05")\<close>.\<close>

definition formatDate :: "Civil \<Rightarrow> string" where
  "formatDate t =
     appendInt (year t) 4 @ ''-'' @ appendInt (month t) 2 @ ''-'' @ appendInt (day t) 2 @ '' '' @
     appendInt (hour t) 2 @ '':'' @ appendInt (minute t) 2 @ '':'' @ appendInt (second t) 2"

text \<open>
  What the program takes from its host and from tables of the library:
  \<^verbatim>\<open>filepath.Join\<close>; the zone \<^verbatim>\<open>time.Local\<close> as the wall clock that \<^verbatim>\<open>Format\<close> reads back
  from the time built out of the parsed fields (the fields themselves, except where the
  zone skips that wall-clock time); the lower-case mapping of package \<^verbatim>\<open>unicode\<close> on the
  runes above ASCII (\<^verbatim>\<open>unicode.To(unicode.LowerCase, r)\<close>); and the answer of the operating
  system when the process opens for reading a file that was created with the given
  permission argument (on Windows no error; on Unix the owner's read bit decides for a
  process that is not root).
\<close>

record Host =
  Join :: "string list \<Rightarrow> string"
  Local :: "Civil \<Rightarrow> Civil"
  CaseLower :: "int \<Rightarrow> int"
  OpenRead :: "nat \<Rightarrow> error option"

subsection \<open>Package unicode/utf8 and strings.ToLower on any bytes\<close>

text \<open>
  A rune (Go's \<^verbatim>\<open>int32\<close>) is an integer: the code points lie between 0 and U+10FFFF and
  nothing below computes beyond 22 bits. \<^verbatim>\<open>utf8.RuneError\<close> is U+FFFD.
\<close>

definition RuneError :: int where
  "RuneError = 0xFFFD"

text \<open>
  \<^verbatim>\<open>utf8.DecodeRuneInString\<close>: the first rune of the bytes and its width. A first byte
  below \<open>0x80\<close> is the rune; \<open>0xC2..0xDF\<close> starts two bytes, \<open>0xE0..0xEF\<close> three,
  \<open>0xF0..0xF4\<close> four; the second byte lies in \<open>0x80..0xBF\<close>, narrowed after \<open>0xE0\<close>,
  \<open>0xED\<close>, \<open>0xF0\<close> and \<open>0xF4\<close> so that over-long forms, surrogates and values above
  U+10FFFF are refused; the others lie in \<open>0x80..0xBF\<close>. Anything else is \<open>RuneError\<close>
  of width 1, and the empty string is \<open>RuneError\<close> of width 0.
\<close>

definition DecodeRune :: "string \<Rightarrow> int \<times> nat" where
  "DecodeRune s =
     (case s of
        [] \<Rightarrow> (RuneError, 0)
      | c0 # rest \<Rightarrow>
          let s0 = (of_char c0 :: int)
          in if s0 < 0x80 then (s0, 1)
             else if s0 < 0xC2 \<or> 0xF4 < s0 then (RuneError, 1)
             else
               let sz = (if s0 < 0xE0 then 2 else if s0 < 0xF0 then 3 else 4 :: nat);
                   lo = (if s0 = 0xE0 then 0xA0 else if s0 = 0xF0 then 0x90 else 0x80 :: int);
                   hi = (if s0 = 0xED then 0x9F else if s0 = 0xF4 then 0x8F else 0xBF :: int)
               in if length s < sz then (RuneError, 1)
                  else
                    let s1 = (of_char (s ! 1) :: int)
                    in if s1 < lo \<or> hi < s1 then (RuneError, 1)
                       else if sz \<le> 2 then (s0 mod 32 * 64 + s1 mod 64, 2)
                       else
                         let s2 = (of_char (s ! 2) :: int)
                         in if s2 < 0x80 \<or> 0xBF < s2 then (RuneError, 1)
                            else if sz \<le> 3
                            then (s0 mod 16 * 4096 + s1 mod 64 * 64 + s2 mod 64, 3)
                            else
                              let s3 = (of_char (s ! 3) :: int)
                              in if s3 < 0x80 \<or> 0xBF < s3 then (RuneError, 1)
                                 else (s0 mod 8 * 262144 + s1 mod 64 * 4096 + s2 mod 64 * 64
                                         + s3 mod 64, 4))"

text \<open>\<^verbatim>\<open>for _, c := range s\<close>: the runes of a string, one \<open>RuneError\<close> per byte that decodes to none.\<close>

function runes :: "string \<Rightarrow> int list" where
  "runes s =
     (if s = [] then [] else fst (DecodeRune s) # runes (drop (snd (DecodeRune s)) s))"
  by pat_completeness auto
termination
  by (relation "measure length") (auto simp: DecodeRune_def Let_def split: list.splits)

declare runes.simps [simp del]

text \<open>
  \<^verbatim>\<open>utf8.AppendRune\<close>: the bytes of a rune; a surrogate or a value above U+10FFFF is
  written as \<open>RuneError\<close>.
\<close>

definition EncodeRune :: "int \<Rightarrow> string" where
  "EncodeRune r =
     (if r \<le> 0x7F then [char_of r]
      else if r \<le> 0x7FF then [char_of (0xC0 + r div 64), char_of (0x80 + r mod 64)]
      else if 0x10FFFF < r \<or> (0xD800 \<le> r \<and> r \<le> 0xDFFF) then [CHR 0xEF, CHR 0xBF, CHR 0xBD]
      else if r \<le> 0xFFFF then
        [char_of (0xE0 + r div 4096), char_of (0x80 + r div 64 mod 64), char_of (0x80 + r mod 64)]
      else
        [char_of (0xF0 + r div 262144), char_of (0x80 + r div 4096 mod 64),
         char_of (0x80 + r div 64 mod 64), char_of (0x80 + r mod 64)])"

text \<open>
  \<^verbatim>\<open>unicode.ToLower\<close>: the ASCII letters by arithmetic, every other rune by the case
  tables of the package, which are \<open>CaseLower\<close>.
\<close>

definition unicodeToLower :: "Host \<Rightarrow> int \<Rightarrow> int" where
  "unicodeToLower host r =
     (if r \<le> 0x7F then (if 65 \<le> r \<and> r \<le> 90 then r + 32 else r) else CaseLower host r)"

text \<open>
  \<^verbatim>\<open>strings.Map(mapping, s)\<close>: every rune of \<open>s\<close> is mapped and, unless the mapping gives
  a negative value, written. A byte that is no rune is read as \<open>RuneError\<close> and so
  written as the three bytes of U+FFFD. (The library returns \<open>s\<close> itself when no rune
  changes and every byte decodes, which is the same string.)
\<close>

definition stringsMap :: "(int \<Rightarrow> int) \<Rightarrow> string \<Rightarrow> string" where
  "stringsMap mapping s =
     concat (map (\<lambda>c. let r = mapping c in if 0 \<le> r then EncodeRune r else []) (runes s))"

text \<open>
  \<^verbatim>\<open>strings.ToLower\<close>: the ASCII branch when every byte is below \<open>0x80\<close>, and
  \<^verbatim>\<open>Map(unicode.ToLower, s)\<close> otherwise.
\<close>

definition stringsToLower :: "Host \<Rightarrow> string \<Rightarrow> string" where
  "stringsToLower host s =
     (if list_all (\<lambda>c. (of_char c :: nat) < 0x80) s then ToLower s
      else stringsMap (unicodeToLower host) s)"

subsection \<open>Constants and configuration\<close>

definition adminDir :: string where "adminDir = ''000Admin''"
definition unzipDir :: string where "unzipDir = ''000Unzip''"
definition ArchX86 :: string where "ArchX86 = ''x86''"
definition ArchX64 :: string where "ArchX64 = ''x64''"

text \<open>
  The variables of package \<^verbatim>\<open>config\<close> that the file reads. The package is not part of the
  source at hand; its values are parameters.
\<close>

record Config =
  Destination :: string
  BuildSource :: string
  LatestBuildFile :: string
  PDBZipFile :: string
  SymStoreExe :: string
  SymExcludeList :: "string list"

subsection \<open>Data model\<close>

text \<open>
  Modelled from the spec: the structs \<^verbatim>\<open>Branch\<close>, \<^verbatim>\<open>Build\<close> and \<^verbatim>\<open>Symbol\<close> are declared
  in another file of the package; the fields are those that branch.go reads and writes,
  with \<^verbatim>\<open>BuildsCount\<close> a Go \<^verbatim>\<open>int\<close>.
\<close>

record Branch =
  BuildName :: string
  StoreName :: string
  BuildPath :: string
  StorePath :: string
  UpdateDate :: string
  LatestBuild :: string
  BuildsCount :: go_int

record Build =
  ID :: string
  Date :: string
  BranchOf :: string
  Version :: string
  Comment :: string

record Symbol =
  Name :: string
  Hash :: string
  Path :: string
  Arch :: string
  SymVersion :: string

text \<open>
  \<^verbatim>\<open>BrBuilder\<close> embeds \<^verbatim>\<open>Branch\<close>. The map \<^verbatim>\<open>builds\<close> is an association list with one
  entry per key, because the code ranges over it; its order stands for whichever order
  Go's map iteration takes.
\<close>

record BrBuilder = Branch +
  builds :: "(string \<times> Build) list"
  symbols :: "(string \<times> Symbol) list"
  symPath :: string

subsection \<open>Symbol classifier (closures of ParseSymbols)\<close>

fun skipLoop :: "Host \<Rightarrow> string list \<Rightarrow> string \<Rightarrow> bool" where
  "skipLoop host [] name = False"
| "skipLoop host (v # vs) name =
     (if stringsToLower host name = v then True else skipLoop host vs name)"

definition skipFn :: "Host \<Rightarrow> Config \<Rightarrow> string \<Rightarrow> bool" where
  "skipFn host cfg name = skipLoop host (SymExcludeList cfg) name"

fun archLoop :: "string list \<Rightarrow> string \<Rightarrow> string" where
  "archLoop [] sympath = ArchX86"
| "archLoop (cap # caps) sympath =
     (if Index sympath cap \<noteq> - 1 then ArchX64 else archLoop caps sympath)"

text \<open>
  \<^verbatim>\<open>archDetect\<close> searches \<^verbatim>\<open>strings.ToLower(sympath)\<close> for two tokens of ASCII bytes. The
  bytes from \<open>0x80\<close> on come out of the library function as bytes from \<open>0x80\<close> on, or as
  \<open>k\<close> (the Kelvin sign) or \<open>i\<close> (the dotted capital I), at least one for each; none of
  these is a byte of a token, so the search finds what it finds after the ASCII letters
  alone are lowered.
\<close>

definition archDetect :: "string \<Rightarrow> string" where
  "archDetect sympath = archLoop [''x64'', ''amd64''] (ToLower sympath)"

subsection \<open>Registry primitives\<close>

fun findVersion :: "(string \<times> Build) list \<Rightarrow> string \<Rightarrow> Build option" where
  "findVersion [] version = None"
| "findVersion ((k, val) # rest) version =
     (if Version val = version then Some val else findVersion rest version)"

definition getBuild :: "BrBuilder \<Rightarrow> string \<Rightarrow> string \<Rightarrow> Build option" where
  "getBuild b version bid =
     (case (if version \<noteq> [] then findVersion (builds b) version else None) of
        Some val \<Rightarrow> Some val
      | None \<Rightarrow> (if bid \<noteq> [] then map_of (builds b) bid else None))"

definition addBuild :: "Build \<Rightarrow> BrBuilder \<Rightarrow> BrBuilder" where
  "addBuild build b =
     b\<lparr>BuildsCount := BuildsCount b + 1,
       UpdateDate := Date build,
       builds := AList.update (ID build) build (builds b)\<rparr>"

subsection \<open>ParseSymbols\<close>

text \<open>
  One pass of the loop body up to the construction of the \<^verbatim>\<open>Symbol\<close>: \<open>None\<close> where the
  source takes a \<^verbatim>\<open>continue\<close>.
\<close>

definition symbolOfLine :: "Host \<Rightarrow> Config \<Rightarrow> string \<Rightarrow> (string \<rightharpoonup> Symbol) \<Rightarrow> string \<Rightarrow> Symbol option" where
  "symbolOfLine host cfg version unqMap str0 =
     (let str = Trim str0 [cr, nl];
          ss = Split str (CHR '','')
      in if length ss < 2 then None
         else
           let pName = Split (Trim (ss ! 0) [CHR 0x22]) (CHR 0x5C)
           in if length pName \<noteq> 2 then None
              else if skipFn host cfg (pName ! 0) then None
              else if unqMap (pName ! 1) \<noteq> None then None
              else
                let spath0 = Trim (ss ! 1) [CHR 0x22];
                    idx = Index spath0 unzipDir;
                    spath = (if idx \<noteq> - 1 then drop (nat idx + length unzipDir) spath0
                             else spath0)
                in Some \<lparr>Name = pName ! 0, Hash = pName ! 1, Path = spath,
                         Arch = archDetect spath, SymVersion = version\<rparr>)"

text \<open>
  The loop over the lines read. A callback is a function of its own state and the symbol
  to an optional error and its next state. The result is the count, the error, the
  callback's state and the symbols the callback was called with, in order.
\<close>

type_synonym ('h, 'a) handler = "'h \<Rightarrow> 'a \<Rightarrow> error option \<times> 'h"

fun symbolsLoop ::
  "Host \<Rightarrow> Config \<Rightarrow> string \<Rightarrow> ('h, Symbol) handler \<Rightarrow> string list \<Rightarrow> go_int \<Rightarrow> (string \<rightharpoonup> Symbol) \<Rightarrow> 'h
   \<Rightarrow> go_int \<times> error option \<times> 'h \<times> Symbol list" where
  "symbolsLoop host cfg version handler [] tot unqMap h = (tot, None, h, [])"
| "symbolsLoop host cfg version handler (str # rest) tot unqMap h =
     (case symbolOfLine host cfg version unqMap str of
        None \<Rightarrow> symbolsLoop host cfg version handler rest tot unqMap h
      | Some smb \<Rightarrow>
          (case handler h smb of
             (Some err, h') \<Rightarrow> (tot, Some err, h', [smb])
           | (None, h') \<Rightarrow>
               (case symbolsLoop host cfg version handler rest (tot + 1)
                       (unqMap(Hash smb \<mapsto> smb)) h' of
                  (n, e, h'', called) \<Rightarrow> (n, e, h'', smb # called))))"

text \<open>The callback that the source puts in place of \<^verbatim>\<open>nil\<close>.\<close>

definition nilHandler :: "('h, 'a) handler" where
  "nilHandler h x = (None, h)"

text \<open>
  \<open>indexFile\<close> is the file \<^verbatim>\<open>StorePath/000Admin/<buildID>\<close>.
\<close>

definition ParseSymbols ::
  "Host \<Rightarrow> Config \<Rightarrow> osfile \<Rightarrow> BrBuilder \<Rightarrow> string \<Rightarrow> ('h, Symbol) handler option \<Rightarrow> 'h
   \<Rightarrow> go_int \<times> error option \<times> 'h \<times> Symbol list" where
  "ParseSymbols host cfg indexFile b buildID handler h =
     (case getBuild b [] buildID of
        None \<Rightarrow> (0, Some ErrBuildNotExist, h, [])
      | Some build \<Rightarrow>
          (case indexFile of
             Inl err \<Rightarrow> (0, Some err, h, [])
           | Inr content \<Rightarrow>
               symbolsLoop host cfg (Version build)
                 (case handler of None \<Rightarrow> nilHandler | Some f \<Rightarrow> f)
                 (readLines [] content) 0 Map.empty h))"

subsection \<open>ParseBuilds\<close>

text \<open>
  One pass of the loop body up to the construction of the \<^verbatim>\<open>Build\<close>: \<open>None\<close> where the
  source takes a \<^verbatim>\<open>continue\<close>.
\<close>

definition buildOfLine :: "Host \<Rightarrow> string \<Rightarrow> Build option" where
  "buildOfLine host str0 =
     (let str = Trim str0 [cr, nl];
          ss = Split str (CHR '','')
      in if length ss < 8 then None
         else
           let dateStr = ss ! 3 @ '' '' @ ss ! 4;
               dateStr' = (case parseDate dateStr of
                             None \<Rightarrow> dateStr
                           | Some dateLoc \<Rightarrow> formatDate (Local host dateLoc))
           in Some \<lparr>ID = ss ! 0, Date = dateStr',
                    BranchOf = Trim (ss ! 5) [CHR 0x22],
                    Version = Trim (ss ! 6) [CHR 0x22],
                    Comment = Trim (ss ! 7) [CHR 0x22]\<rparr>)"

text \<open>
  The loop over the lines of server.txt. The result is the count, the error, the
  registry, the callback's state and the builds the callback was called with, in order.
\<close>

fun buildsLoop ::
  "Host \<Rightarrow> ('h, Build) handler \<Rightarrow> string list \<Rightarrow> go_int \<Rightarrow> BrBuilder \<Rightarrow> 'h
   \<Rightarrow> go_int \<times> error option \<times> BrBuilder \<times> 'h \<times> Build list" where
  "buildsLoop host handler [] tot b h = (tot, None, b, h, [])"
| "buildsLoop host handler (str # rest) tot b h =
     (case buildOfLine host str of
        None \<Rightarrow> buildsLoop host handler rest tot b h
      | Some build \<Rightarrow>
          (let b1 = (addBuild build b)\<lparr>LatestBuild := Version build\<rparr>
           in case handler h build of
                (Some err, h') \<Rightarrow> (tot + 1, Some err, b1, h', [build])
              | (None, h') \<Rightarrow>
                  (case buildsLoop host handler rest (tot + 1) b1 h' of
                     (n, e, b2, h'', called) \<Rightarrow> (n, e, b2, h'', build # called))))"

text \<open>The loop over the builds in memory, taken when the registry is not empty.\<close>

fun replayLoop ::
  "('h, Build) handler \<Rightarrow> (string \<times> Build) list \<Rightarrow> go_int \<Rightarrow> 'h
   \<Rightarrow> go_int \<times> error option \<times> 'h \<times> Build list" where
  "replayLoop handler [] tot h = (tot, None, h, [])"
| "replayLoop handler ((k, bd) # rest) tot h =
     (case handler h bd of
        (Some err, h') \<Rightarrow> (tot, Some err, h', [bd])
      | (None, h') \<Rightarrow>
          (case replayLoop handler rest (tot + 1) h' of
             (n, e, h'', called) \<Rightarrow> (n, e, h'', bd # called)))"

text \<open>\<open>serverTxt\<close> is the file \<^verbatim>\<open>StorePath/000Admin/server.txt\<close>.\<close>

definition ParseBuilds ::
  "Host \<Rightarrow> osfile \<Rightarrow> BrBuilder \<Rightarrow> ('h, Build) handler option \<Rightarrow> 'h
   \<Rightarrow> go_int \<times> error option \<times> BrBuilder \<times> 'h \<times> Build list" where
  "ParseBuilds host serverTxt b handler0 h =
     (let handler = (case handler0 of None \<Rightarrow> nilHandler | Some f \<Rightarrow> f)
      in if builds b \<noteq> [] then
           (case replayLoop handler (builds b) 0 h of
              (n, e, h', called) \<Rightarrow> (n, e, b, h', called))
         else
           (case serverTxt of
              Inl err \<Rightarrow> (0, Some err, b, h, [])
            | Inr content \<Rightarrow>
                buildsLoop host handler (readLines [] content) 0 (b\<lparr>BuildsCount := 0\<rparr>) h))"

subsection \<open>Pointer files\<close>

text \<open>
  The files of one branch that AddBuild reads and writes: the latest-build pointer below
  the store and the one on the build server, lastid.txt, and whether the staging
  directory \<^verbatim>\<open>StorePath/000Unzip\<close> exists.
\<close>

record Disk =
  localLatest :: osfile
  serverLatest :: osfile
  lastidTxt :: osfile
  staging :: bool

definition getLatestBuild :: "Disk \<Rightarrow> bool \<Rightarrow> error + string" where
  "getLatestBuild d local =
     (case (if local then localLatest d else serverLatest d) of
        Inl err \<Rightarrow> Inl err
      | Inr content \<Rightarrow> Inr (Trim (fst (ReadString content)) [CHR '' '', cr, nl]))"

definition GetLatestID :: "Disk \<Rightarrow> string" where
  "GetLatestID d =
     (case lastidTxt d of
        Inl err \<Rightarrow> []
      | Inr content \<Rightarrow> Trim (fst (ReadString content)) [CHR '' '', cr, nl])"

subsection \<open>AddBuild\<close>

text \<open>
  What the operating system and the collaborators answer during one call: the error of
  each call that can fail, the bytes of the pointer that a failing write leaves behind,
  lastid.txt as symstore.exe leaves it, and the clock in the two formats the source asks
  for.
\<close>

record Ext =
  mkdirAllErr :: "error option"
  createZipErr :: "error option"
  openSourceErr :: "error option"
  copyErr :: "error option"
  unzipErr :: "error option"
  symstoreErr :: "error option"
  symstoreLastid :: osfile
  openLatestErr :: "error option"
  writeLatestErr :: "error option"
  writeLatestDone :: nat
  nowDate :: string
  nowComment :: string

definition updateLatestBuild :: "Ext \<Rightarrow> Disk \<Rightarrow> string \<Rightarrow> error option \<times> Disk" where
  "updateLatestBuild ext d latest =
     (case openLatestErr ext of
        Some err \<Rightarrow> (Some err, d)
      | None \<Rightarrow>
          (case writeLatestErr ext of
             Some err \<Rightarrow> (Some err, d\<lparr>localLatest := Inr (take (writeLatestDone ext) latest)\<rparr>)
           | None \<Rightarrow> (None, d\<lparr>localLatest := Inr latest\<rparr>)))"

definition getSymbols :: "Host \<Rightarrow> Config \<Rightarrow> Ext \<Rightarrow> BrBuilder \<Rightarrow> string \<Rightarrow> error + string" where
  "getSymbols host cfg ext b buildver =
     (let fzip = Join host [symPath b, PDBZipFile cfg]
      in case createZipErr ext of
           Some err \<Rightarrow> Inl err
         | None \<Rightarrow>
             (case openSourceErr ext of
                Some err \<Rightarrow> Inl err
              | None \<Rightarrow> (case copyErr ext of Some err \<Rightarrow> Inl err | None \<Rightarrow> Inr fzip)))"

definition addSymStore :: "Ext \<Rightarrow> Disk \<Rightarrow> BrBuilder \<Rightarrow> string \<Rightarrow> (error + Build) \<times> Disk" where
  "addSymStore ext d b latestbuild =
     (let d' = d\<lparr>lastidTxt := symstoreLastid ext\<rparr>
      in case symstoreErr ext of
           Some err \<Rightarrow> (Inl err, d')
         | None \<Rightarrow>
             (Inr \<lparr>ID = GetLatestID d', Date = nowDate ext, BranchOf = StoreName b,
                   Version = latestbuild, Comment = nowComment ext\<rparr>, d'))"

text \<open>The body of AddBuild after \<^verbatim>\<open>defer os.RemoveAll(b.symPath)\<close>.\<close>

definition stagedAdd ::
  "Host \<Rightarrow> Config \<Rightarrow> Ext \<Rightarrow> string \<Rightarrow> Disk \<Rightarrow> BrBuilder \<Rightarrow> error option \<times> Disk \<times> BrBuilder" where
  "stagedAdd host cfg ext latest d b =
     (case getSymbols host cfg ext b latest of
        Inl err \<Rightarrow> (Some err, d, b)
      | Inr symbolZip \<Rightarrow>
          (case unzipErr ext of
             Some err \<Rightarrow> (Some err, d, b)
           | None \<Rightarrow>
               (case addSymStore ext d b latest of
                  (Inl err, d1) \<Rightarrow> (Some err, d1, b)
                | (Inr build, d1) \<Rightarrow>
                    (case updateLatestBuild ext d1 latest of
                       (Some err, d2) \<Rightarrow> (Some err, d2, b)
                     | (None, d2) \<Rightarrow> (None, d2, (addBuild build b)\<lparr>LatestBuild := latest\<rparr>)))))"

text \<open>
  The head of AddBuild: the version to add, or the value returned at once (\<open>Inl\<close>).
\<close>

definition resolveVersion :: "Disk \<Rightarrow> string \<Rightarrow> error option + string" where
  "resolveVersion d buildVerion =
     (let local = (case getLatestBuild d True of Inl err \<Rightarrow> [] | Inr s \<Rightarrow> s)
      in if buildVerion = [] then
           (case getLatestBuild d False of
              Inl err \<Rightarrow> Inl (Some ErrInvalidLatestBuild)
            | Inr latest \<Rightarrow> if latest = local then Inl None else Inr latest)
         else Inr buildVerion)"

definition AddBuild ::
  "Host \<Rightarrow> Config \<Rightarrow> Ext \<Rightarrow> string \<Rightarrow> Disk \<Rightarrow> BrBuilder \<Rightarrow> error option \<times> Disk \<times> BrBuilder" where
  "AddBuild host cfg ext buildVerion d b =
     (case resolveVersion d buildVerion of
        Inl r \<Rightarrow> (r, d, b)
      | Inr latest \<Rightarrow>
          if getBuild b latest [] \<noteq> None then (None, d, b)
          else
            (let b1 = b\<lparr>symPath := Join host [StorePath b, unzipDir]\<rparr>
             in (case mkdirAllErr ext of
                   Some err \<Rightarrow> (Some err, d, b1)
                 | None \<Rightarrow>
                     (case stagedAdd host cfg ext latest (d\<lparr>staging := True\<rparr>) b1 of
                        (r, d', b') \<Rightarrow> (r, (d'\<lparr>staging := False\<rparr>), b')))))"

subsection \<open>NewBranch, Persist and Load\<close>

definition NewBranch2 :: "Host \<Rightarrow> Config \<Rightarrow> Branch \<Rightarrow> BrBuilder" where
  "NewBranch2 host cfg branch =
     (let b = Branch.extend branch (BrBuilder.fields [] [] []);
          b = (if StorePath b = [] then b\<lparr>StorePath := Join host [Destination cfg, StoreName b]\<rparr>
               else b)
      in if BuildPath b = []
         then b\<lparr>BuildPath := Join host [BuildSource cfg, BuildName b, ''Release'']\<rparr>
         else b)"

text \<open>\<open>now\<close> is \<^verbatim>\<open>time.Now().Format("2006-01-02 15:04:05")\<close>.\<close>

definition NewBranch :: "Host \<Rightarrow> Config \<Rightarrow> string \<Rightarrow> string \<Rightarrow> string \<Rightarrow> BrBuilder" where
  "NewBranch host cfg now buildName storeName =
     NewBranch2 host cfg
       \<lparr>BuildName = buildName, StoreName = storeName, BuildPath = [], StorePath = [],
        UpdateDate = now, LatestBuild = [], BuildsCount = 0\<rparr>"

text \<open>
  Package \<^verbatim>\<open>encoding/gob\<close> on a \<^verbatim>\<open>Branch\<close>: the stream names the fields that are not zero
  with their values; decoding into a struct stores the fields of the stream and leaves
  the others as they are. A field of the stream that the struct does not have is passed
  over.
\<close>

datatype gobValue = GobString string | GobInt go_int

type_synonym gob = "(string \<times> gobValue) list"

definition isZero :: "gobValue \<Rightarrow> bool" where
  "isZero v = (case v of GobString s \<Rightarrow> s = [] | GobInt i \<Rightarrow> i = 0)"

definition Encode :: "BrBuilder \<Rightarrow> gob" where
  "Encode b =
     filter (\<lambda>(name, v). \<not> isZero v)
       [(''BuildName'', GobString (BuildName b)),
        (''StoreName'', GobString (StoreName b)),
        (''BuildPath'', GobString (BuildPath b)),
        (''StorePath'', GobString (StorePath b)),
        (''UpdateDate'', GobString (UpdateDate b)),
        (''LatestBuild'', GobString (LatestBuild b)),
        (''BuildsCount'', GobInt (BuildsCount b))]"

definition decodeField :: "string \<times> gobValue \<Rightarrow> BrBuilder \<Rightarrow> BrBuilder" where
  "decodeField f b =
     (case f of
        (name, GobString s) \<Rightarrow>
          if name = ''BuildName'' then b\<lparr>BuildName := s\<rparr>
          else if name = ''StoreName'' then b\<lparr>StoreName := s\<rparr>
          else if name = ''BuildPath'' then b\<lparr>BuildPath := s\<rparr>
          else if name = ''StorePath'' then b\<lparr>StorePath := s\<rparr>
          else if name = ''UpdateDate'' then b\<lparr>UpdateDate := s\<rparr>
          else if name = ''LatestBuild'' then b\<lparr>LatestBuild := s\<rparr>
          else b
      | (name, GobInt i) \<Rightarrow> if name = ''BuildsCount'' then b\<lparr>BuildsCount := i\<rparr> else b)"

text \<open>
  A field of the stream fits when the struct has no field of its name or one of its
  type; the decoder refuses a stream with a field that does not fit.
\<close>

definition fieldFits :: "string \<times> gobValue \<Rightarrow> bool" where
  "fieldFits f =
     (case f of
        (name, GobString s) \<Rightarrow> name \<noteq> ''BuildsCount''
      | (name, GobInt i) \<Rightarrow>
          name \<notin> set [''BuildName'', ''StoreName'', ''BuildPath'', ''StorePath'', ''UpdateDate'',
                       ''LatestBuild''])"

text \<open>
  What the decoder finds in the bytes of a file: the error it reports on bytes that are
  no whole stream (an empty or a torn file, other data), or the fields of the stream.
\<close>

type_synonym gobBytes = "error + gob"

text \<open>
  \<^verbatim>\<open>dec.Decode(&b.Branch)\<close>: the error and the registry afterwards. The decoder reads a
  whole message and checks it against the struct before it stores a field, so an error
  leaves the registry as it was.
\<close>

definition Decode :: "gobBytes \<Rightarrow> BrBuilder \<Rightarrow> error option \<times> BrBuilder" where
  "Decode bytes b =
     (case bytes of
        Inl err \<Rightarrow> (Some err, b)
      | Inr g \<Rightarrow>
          if list_all fieldFits g then (None, fold decodeField g b)
          else (Some (GobError ''wrong type for received field''), b))"

text \<open>The zero value of \<^verbatim>\<open>Branch\<close>.\<close>

definition zeroBranch :: Branch where
  "zeroBranch =
     \<lparr>BuildName = [], StoreName = [], BuildPath = [], StorePath = [], UpdateDate = [],
      LatestBuild = [], BuildsCount = 0\<rparr>"

text \<open>
  A snapshot file: the permission argument it was created with, and its bytes. The
  snapshot files by path: \<open>Inl err\<close> where there is no file, \<open>err\<close> being the error of
  opening the path for reading.
\<close>

record snapfile =
  createdMode :: nat
  snapBytes :: gobBytes

type_synonym snapshots = "string \<Rightarrow> error + snapfile"

text \<open>
  What the operating system answers during one call of Persist: the error of opening
  branch.bin for writing, the error of the encoder's write to the file, and what a
  decoder reports on the bytes that a failed write leaves in the file.
\<close>

record SnapExt =
  openSnapErr :: "error option"
  encodeErr :: "error option"
  tornErr :: error

text \<open>
  \<^verbatim>\<open>os.OpenFile(fpath, os.O_WRONLY|os.O_CREATE|os.O_TRUNC, 666)\<close> creates the file with
  the permission argument 666 (the decimal number) when there is none and empties the
  one that is there, whose permissions stay; the value returned is the encoder's.
\<close>

definition Persist :: "Host \<Rightarrow> SnapExt \<Rightarrow> snapshots \<Rightarrow> BrBuilder \<Rightarrow> error option \<times> snapshots" where
  "Persist host sx snaps b =
     (let fpath = Join host [StorePath b, adminDir, ''branch.bin'']
      in case openSnapErr sx of
           Some err \<Rightarrow> (Some err, snaps)
         | None \<Rightarrow>
             (let m = (case snaps fpath of Inl e \<Rightarrow> 666 | Inr old \<Rightarrow> createdMode old)
              in case encodeErr sx of
                   Some err \<Rightarrow>
                     (Some err, snaps(fpath := Inr \<lparr>createdMode = m, snapBytes = Inl (tornErr sx)\<rparr>))
                 | None \<Rightarrow>
                     (None, snaps(fpath := Inr \<lparr>createdMode = m, snapBytes = Inr (Encode b)\<rparr>))))"

text \<open>
  \<^verbatim>\<open>os.OpenFile(fpath, os.O_RDONLY, 666)\<close> fails where there is no file and where the
  operating system refuses the read; the value returned is the decoder's.
\<close>

definition Load :: "Host \<Rightarrow> snapshots \<Rightarrow> BrBuilder \<Rightarrow> error option \<times> BrBuilder" where
  "Load host snaps b =
     (let fpath = Join host [StorePath b, adminDir, ''branch.bin'']
      in case snaps fpath of
           Inl err \<Rightarrow> (Some err, b)
         | Inr f \<Rightarrow>
             (case OpenRead host (createdMode f) of
                Some err \<Rightarrow> (Some err, b)
              | None \<Rightarrow> Decode (snapBytes f) b))"

subsection \<open>Auxiliary notions for the statements\<close>

text \<open>
  The verdicts of a callback over a list of values: the first error with the state
  reached, or no error and the state after the last value.
\<close>

fun feed :: "('h, 'a) handler \<Rightarrow> 'h \<Rightarrow> 'a list \<Rightarrow> error option \<times> 'h" where
  "feed handler h [] = (None, h)"
| "feed handler h (x # xs) =
     (case handler h x of (Some err, h') \<Rightarrow> (Some err, h') | (None, h') \<Rightarrow> feed handler h' xs)"

text \<open>The first error in a list of answers.\<close>

fun firstError :: "error option list \<Rightarrow> error option" where
  "firstError [] = None"
| "firstError (None # rest) = firstError rest"
| "firstError (Some err # rest) = Some err"

subsection \<open>Concrete inputs\<close>

definition quote :: string where
  "quote = [CHR 0x22]"

definition bslash :: string where
  "bslash = [CHR 0x5C]"

definition crlf :: string where
  "crlf = [cr, nl]"

definition exHost :: Host where
  "exHost =
     \<lparr>Join = (\<lambda>xs. foldr (\<lambda>x p. if p = [] then x else x @ bslash @ p) xs []),
      Local = (\<lambda>t. t),
      CaseLower = (\<lambda>r. if 0xC0 \<le> r \<and> r \<le> 0xDE \<and> r \<noteq> 0xD7 then r + 32 else r),
      OpenRead = (\<lambda>m. None)\<rparr>"

definition exConfig :: Config where
  "exConfig =
     \<lparr>Destination = ''S:'', BuildSource = ''B:'', LatestBuildFile = ''latestbuild.txt'',
      PDBZipFile = ''debug.zip'', SymStoreExe = ''symstore.exe'',
      SymExcludeList = [''vc90.pdb'']\<rparr>"

definition exBuild :: Build where
  "exBuild =
     \<lparr>ID = ''0000000001'', Date = ''2017-07-04 14:44:14'', BranchOf = ''UDPv6.5U2'',
      Version = ''4175.2-538'', Comment = ''2017/7/4_14:44:14''\<rparr>"

definition exFresh :: BrBuilder where
  "exFresh = NewBranch exHost exConfig ''2017-07-01 08:00:00'' ''UDPv6.5U2'' ''UDPv6.5U2''"

definition exRegistry :: BrBuilder where
  "exRegistry = addBuild exBuild exFresh"

text \<open>The history line of the spec's scenario.\<close>

definition sampleLine :: string where
  "sampleLine =
     ''0000000001,add,file,07/04/2017,14:44:14,'' @ quote @ ''UDPv6.5U2'' @ quote @ '','' @
     quote @ ''4175.2-538'' @ quote @ '','' @ quote @ ''2017/7/4_14:44:14'' @ quote @ '',''"

text \<open>A second history line, a log of three lines with a malformed one, and their builds.\<close>

definition sampleLine2 :: string where
  "sampleLine2 =
     ''0000000002,add,file,07/05/2017,9:05:00,'' @ quote @ ''UDPv6.5U2'' @ quote @ '','' @
     quote @ ''4175.2-539'' @ quote @ '','' @ quote @ ''2017/7/5_9:05:00'' @ quote @ '',''"

definition exLog :: string where
  "exLog = sampleLine @ crlf @ ''0000000009,del'' @ crlf @ sampleLine2 @ crlf"

definition exBuild2 :: Build where
  "exBuild2 =
     \<lparr>ID = ''0000000002'', Date = ''2017-07-05 09:05:00'', BranchOf = ''UDPv6.5U2'',
      Version = ''4175.2-539'', Comment = ''2017/7/5_9:05:00''\<rparr>"

definition exParsed :: BrBuilder where
  "exParsed =
     (addBuild exBuild2 ((addBuild exBuild exFresh)\<lparr>LatestBuild := ''4175.2-538''\<rparr>))
       \<lparr>LatestBuild := ''4175.2-539''\<rparr>"

definition exTime :: Civil where
  "exTime = \<lparr>year = 2017, month = 7, day = 4, hour = 14, minute = 44, second = 14\<rparr>"

text \<open>Index lines: name and hash in the first field, the path in the second.\<close>

definition indexLine :: "string \<Rightarrow> string \<Rightarrow> string \<Rightarrow> string" where
  "indexLine name hash path =
     quote @ name @ bslash @ hash @ quote @ '','' @ quote @ path @ quote @ crlf"

definition exIndex :: string where
  "exIndex =
     indexLine ''cbt_client.pdb'' ''8E38'' (''S:'' @ bslash @ ''000Unzip'' @ bslash @ ''x64'' @ bslash @ ''cbt_client.pdb'') @
     indexLine ''VC90.PDB'' ''11AA'' ''vc90.pdb'' @
     indexLine ''other.pdb'' ''8E38'' ''other.pdb'' @
     indexLine ''agent.pdb'' ''77F0'' (''x86'' @ bslash @ ''agent.pdb'')"

text \<open>The symbols of the first and of the last line of \<open>exIndex\<close>.\<close>

definition exSym1 :: Symbol where
  "exSym1 =
     \<lparr>Name = ''cbt_client.pdb'', Hash = ''8E38'',
      Path = bslash @ ''x64'' @ bslash @ ''cbt_client.pdb'', Arch = ''x64'',
      SymVersion = ''4175.2-538''\<rparr>"

definition exSym2 :: Symbol where
  "exSym2 =
     \<lparr>Name = ''agent.pdb'', Hash = ''77F0'', Path = ''x86'' @ bslash @ ''agent.pdb'',
      Arch = ''x86'', SymVersion = ''4175.2-538''\<rparr>"

text \<open>An exclude list with an entry in upper case, and an index line with that name.\<close>

definition exConfigUpper :: Config where
  "exConfigUpper = exConfig\<lparr>SymExcludeList := [''VC90.PDB'']\<rparr>"

definition exSymUpper :: Symbol where
  "exSymUpper =
     \<lparr>Name = ''VC90.PDB'', Hash = ''11AA'', Path = ''vc90.pdb'', Arch = ''x86'',
      SymVersion = ''4175.2-538''\<rparr>"

text \<open>
  A name with a byte that is no UTF-8 (\<open>0xFF\<close>), an exclude list that holds this very
  name, and the symbol of an index line with it.
\<close>

definition exRawName :: string where
  "exRawName = [CHR 0xFF] @ ''.pdb''"

definition exConfigRaw :: Config where
  "exConfigRaw = exConfig\<lparr>SymExcludeList := [exRawName]\<rparr>"

definition exSymRaw :: Symbol where
  "exSymRaw =
     \<lparr>Name = exRawName, Hash = ''22BB'', Path = ''raw.pdb'', Arch = ''x86'',
      SymVersion = ''4175.2-538''\<rparr>"

text \<open>
  A name with a capital letter outside ASCII (U+00C9, two bytes), an exclude list with
  its lower-case form (U+00E9) beside \<open>vc90.pdb\<close>, and an index that starts with that name.
\<close>

definition exCapName :: string where
  "exCapName = [CHR 0xC3, CHR 0x89] @ ''.PDB''"

definition exSmallName :: string where
  "exSmallName = [CHR 0xC3, CHR 0xA9] @ ''.pdb''"

definition exConfigLatin :: Config where
  "exConfigLatin = exConfig\<lparr>SymExcludeList := [''vc90.pdb'', exSmallName]\<rparr>"

definition exIndexLatin :: string where
  "exIndexLatin = indexLine exCapName ''5C01'' ''e.pdb'' @ exIndex"

text \<open>Callbacks: one that rejects every value, one that fails on its second call.\<close>

definition rejectAll :: "(unit, 'a) handler" where
  "rejectAll h x = (Some (OSError ''rejected''), h)"

definition failSecond :: "(nat, 'a) handler" where
  "failSecond h x = (if h = 1 then (Some (OSError ''second''), h) else (None, h + 1))"

definition exDisk :: Disk where
  "exDisk =
     \<lparr>localLatest = Inr ''4175.2-538'', serverLatest = Inr (''4175.2-539'' @ crlf),
      lastidTxt = Inr ''0000000001'', staging = False\<rparr>"

definition exExt :: Ext where
  "exExt =
     \<lparr>mkdirAllErr = None, createZipErr = None, openSourceErr = None, copyErr = None,
      unzipErr = None, symstoreErr = None, symstoreLastid = Inr (''0000000002'' @ crlf),
      openLatestErr = None, writeLatestErr = None, writeLatestDone = 0,
      nowDate = ''2017-07-05 09:00:00'', nowComment = ''2017-07-05_09:00:00''\<rparr>"

text \<open>The outcome of adding build 4175.2-539 to \<open>exRegistry\<close> on \<open>exDisk\<close>.\<close>

definition exBuild3 :: Build where
  "exBuild3 =
     \<lparr>ID = ''0000000002'', Date = ''2017-07-05 09:00:00'', BranchOf = ''UDPv6.5U2'',
      Version = ''4175.2-539'', Comment = ''2017-07-05_09:00:00''\<rparr>"

definition exStaged :: BrBuilder where
  "exStaged = exRegistry\<lparr>symPath := Join exHost [StorePath exRegistry, unzipDir]\<rparr>"

definition exRegistry1 :: BrBuilder where
  "exRegistry1 = (addBuild exBuild3 exStaged)\<lparr>LatestBuild := ''4175.2-539''\<rparr>"

definition exDisk1 :: Disk where
  "exDisk1 = exDisk\<lparr>lastidTxt := symstoreLastid exExt, localLatest := Inr ''4175.2-539''\<rparr>"

text \<open>The same call when the archive cannot be extracted.\<close>

definition exExtBadZip :: Ext where
  "exExtBadZip = exExt\<lparr>unzipErr := Some (OSError ''bad zip'')\<rparr>"

text \<open>A registry restored from a snapshot: five builds counted, none in memory.\<close>

definition exRestored :: BrBuilder where
  "exRestored = exFresh\<lparr>BuildsCount := 5\<rparr>"

text \<open>
  No snapshot on disk, a call of Persist in which nothing fails, and the registry that
  Load makes of \<open>exFresh\<close> after \<open>exParsed\<close> was persisted.
\<close>

definition exSnapshots :: snapshots where
  "exSnapshots = (\<lambda>p. Inl (OSError ''not found''))"

definition exSnapExt :: SnapExt where
  "exSnapExt = \<lparr>openSnapErr = None, encodeErr = None, tornErr = GobError ''unexpected EOF''\<rparr>"

definition exLoaded :: BrBuilder where
  "exLoaded =
     exFresh\<lparr>UpdateDate := ''2017-07-05 09:05:00'', LatestBuild := ''4175.2-539'',
       BuildsCount := 2\<rparr>"

text \<open>
  A registry made by NewBranch2 from a record with the two names only: its update date
  is empty.
\<close>

definition exUndated :: BrBuilder where
  "exUndated =
     NewBranch2 exHost exConfig
       \<lparr>BuildName = ''UDPv6.5U2'', StoreName = ''UDPv6.5U2'', BuildPath = [], StorePath = [],
        UpdateDate = [], LatestBuild = [], BuildsCount = 0\<rparr>"

text \<open>
  A host that lets a file be read when the owner's read bit (octal 400) is in the
  permission argument it was created with.
\<close>

definition exHostUnix :: Host where
  "exHostUnix =
     exHost\<lparr>OpenRead :=
       (\<lambda>m. if m div 256 mod 2 = 1 then None else Some (OSError ''permission denied''))\<rparr>"

section \<open>Properties\<close>

subsection \<open>Library functions\<close>

lemma Index_ge: "- 1 \<le> Index s sub"
  by (induction s) (auto simp: Let_def)

lemma Index_sublist: "Index s sub \<noteq> - 1 \<longleftrightarrow> sublist sub s"
proof (induction s)
  case Nil
  then show ?case by simp
next
  case (Cons c cs)
  have "Index cs sub + 1 \<noteq> - 1"
    using Index_ge [of cs sub] by arith
  with Cons show ?case
    by (auto simp: Let_def sublist_Cons_right)
qed

lemma Trim_snoc: "c \<in> set cutset \<Longrightarrow> Trim (s @ [c]) cutset = Trim s cutset"
proof (cases "\<forall>x \<in> set s. x \<in> set cutset")
  case True
  assume "c \<in> set cutset"
  with True have "dropWhile (\<lambda>c. c \<in> set cutset) (s @ [c]) = []"
    and "dropWhile (\<lambda>c. c \<in> set cutset) s = []"
    by simp_all
  then show ?thesis by (simp only: Trim_def)
next
  case False
  assume "c \<in> set cutset"
  moreover from False obtain x where "x \<in> set s" "\<not> x \<in> set cutset" by blast
  then have "dropWhile (\<lambda>c. c \<in> set cutset) (s @ [c]) = dropWhile (\<lambda>c. c \<in> set cutset) s @ [c]"
    by (rule dropWhile_append1)
  ultimately show ?thesis by (simp add: Trim_def)
qed

lemma set_Trim: "set (Trim s cutset) \<subseteq> set s"
  unfolding Trim_def by (auto dest!: set_dropWhileD)

lemma Trim_ends:
  "Trim s cutset = [] \<or> (hd (Trim s cutset) \<notin> set cutset \<and> last (Trim s cutset) \<notin> set cutset)"
proof (cases "Trim s cutset = []")
  case True
  then show ?thesis by simp
next
  case False
  define P where "P = (\<lambda>c. c \<in> set cutset)"
  define t where "t = dropWhile P s"
  define u where "u = dropWhile P (rev t)"
  have T: "Trim s cutset = rev u" by (simp add: Trim_def u_def t_def P_def)
  with False have "u \<noteq> []" by simp
  then have "\<not> P (hd u)" unfolding u_def by (rule hd_dropWhile)
  then have l: "last (rev u) \<notin> set cutset"
    using \<open>u \<noteq> []\<close> by (simp add: last_rev P_def)
  have "rev t = takeWhile P (rev t) @ u" by (simp add: u_def)
  then have "t = rev u @ rev (takeWhile P (rev t))" by (metis rev_append rev_rev_ident)
  with \<open>u \<noteq> []\<close> have "t \<noteq> []" "hd t = hd (rev u)"
    by (metis Nil_is_append_conv rev_is_Nil_conv, metis hd_append2 rev_is_Nil_conv)
  moreover from \<open>t \<noteq> []\<close> have "\<not> P (hd t)" unfolding t_def by (rule hd_dropWhile)
  ultimately have "hd (rev u) \<notin> set cutset" by (simp add: P_def)
  with l T show ?thesis by simp
qed

lemma Trim_fix:
  "s = [] \<or> (hd s \<notin> set cutset \<and> last s \<notin> set cutset) \<Longrightarrow> Trim s cutset = s"
proof (cases s)
  case Nil
  then show ?thesis by (simp add: Trim_def)
next
  case (Cons x xs)
  assume a: "s = [] \<or> (hd s \<notin> set cutset \<and> last s \<notin> set cutset)"
  with Cons have d: "dropWhile (\<lambda>c. c \<in> set cutset) s = s" by simp
  from Cons obtain ys y where sn: "s = ys @ [y]" by (metis rev_exhaust list.distinct(1))
  with a have "y \<notin> set cutset" by simp
  with sn have "dropWhile (\<lambda>c. c \<in> set cutset) (rev s) = rev s" by simp
  with d show ?thesis by (simp add: Trim_def)
qed

lemma Trim_idem: "Trim (Trim s cutset) cutset = Trim s cutset"
  by (rule Trim_fix) (rule Trim_ends)

lemma ReadString_fst:
  "fst (ReadString r) = r \<and> nl \<notin> set r \<or> fst (ReadString r) = takeWhile (\<lambda>c. c \<noteq> nl) r @ [nl]"
  by (auto simp: ReadString_def split: list.splits)

lemma ReadString_no_nl: "nl \<notin> set r \<Longrightarrow> fst (ReadString r) = r"
proof -
  assume "nl \<notin> set r"
  then have "dropWhile (\<lambda>c. c \<noteq> nl) r = []" by auto
  then show ?thesis by (simp only: ReadString_def list.case fst_conv)
qed

lemma takeWhile_no_nl: "nl \<notin> set r \<Longrightarrow> takeWhile (\<lambda>c. c \<noteq> nl) r = r"
  by (induction r) auto

lemma firstLine_Trim:
  "nl \<in> set cutset \<Longrightarrow> Trim (fst (ReadString r)) cutset = Trim (takeWhile (\<lambda>c. c \<noteq> nl) r) cutset"
  using ReadString_fst [of r] by (auto simp: Trim_snoc takeWhile_no_nl)

lemma firstLine_no_nl: "nl \<in> set cutset \<Longrightarrow> nl \<notin> set (Trim (fst (ReadString r)) cutset)"
proof -
  assume "nl \<in> set cutset"
  then have "set (Trim (fst (ReadString r)) cutset) \<subseteq> set (takeWhile (\<lambda>c. c \<noteq> nl) r)"
    by (simp add: firstLine_Trim set_Trim)
  then show ?thesis by (auto dest: set_takeWhileD)
qed

lemma firstLine_fix:
  assumes "nl \<in> set cutset" and "x = Trim (fst (ReadString r)) cutset"
  shows "Trim (fst (ReadString x)) cutset = x"
proof -
  have "nl \<notin> set x" using assms by (simp add: firstLine_no_nl)
  then have "fst (ReadString x) = x"
    by (rule ReadString_no_nl)
  then show ?thesis using assms by (simp add: Trim_idem)
qed

subsection \<open>Architecture detection\<close>

lemma archDetect_sublist:
  "archDetect p =
     (if sublist ''x64'' (ToLower p) \<or> sublist ''amd64'' (ToLower p) then ArchX64 else ArchX86)"
  unfolding archDetect_def by (simp add: Index_sublist del: Index.simps)

text \<open>
  C7. Architecture detection is a substring search on the lower-cased path: the path is
  classified \<open>x64\<close> when its lower-cased form contains \<open>x64\<close> or \<open>amd64\<close>, and \<open>x86\<close>
  otherwise; a token that lower-cases to \<open>x64\<close> or \<open>amd64\<close>, in whatever case it is
  written and wherever it stands in the path, gives \<open>x64\<close>.
\<close>

theorem archDetect_case_insensitive:
  "archDetect p =
     (if sublist ''x64'' (ToLower p) \<or> sublist ''amd64'' (ToLower p) then ArchX64 else ArchX86)
   \<and> (ToLower tok = ''x64'' \<or> ToLower tok = ''amd64'' \<longrightarrow>
        archDetect (pre @ tok @ suf) = ArchX64)"
proof -
  have "sublist (ToLower tok) (ToLower (pre @ tok @ suf))"
    by (simp add: ToLower_def)
  then show ?thesis
    by (auto simp: archDetect_sublist)
qed

text \<open>
  The paths of the spec: \<open>X64\<close>, \<open>x64\<close> and \<open>AMD64\<close> are classified \<open>x64\<close>; \<open>x86\<close> and a path
  with neither token are classified \<open>x86\<close>.
\<close>

theorem archDetect_case_insensitive_witness:
  "ToLower ''aMd64'' = ''amd64''
   \<and> archDetect ((''S:'' @ bslash) @ ''aMd64'' @ (bslash @ ''foo.pdb'')) = ArchX64
   \<and> archDetect (''S:'' @ bslash @ ''X64'' @ bslash @ ''foo.pdb'') = ArchX64
   \<and> archDetect (''S:'' @ bslash @ ''x64'' @ bslash @ ''foo.pdb'') = ArchX64
   \<and> archDetect (''S:'' @ bslash @ ''AMD64'' @ bslash @ ''foo.pdb'') = ArchX64
   \<and> archDetect (''S:'' @ bslash @ ''x86'' @ bslash @ ''foo.pdb'') = ArchX86
   \<and> archDetect (''S:'' @ bslash @ ''anything'' @ bslash @ ''foo.pdb'') = ArchX86"
proof -
  have low: "ToLower ''aMd64'' = ''amd64''"
    by code_simp
  then have tok: "archDetect ((''S:'' @ bslash) @ ''aMd64'' @ (bslash @ ''foo.pdb'')) = ArchX64"
    using archDetect_case_insensitive [of _ "''aMd64''" "''S:'' @ bslash" "bslash @ ''foo.pdb''"]
    by blast
  have rule: "archDetect p =
      (if sublist ''x64'' (ToLower p) \<or> sublist ''amd64'' (ToLower p) then ArchX64 else ArchX86)" for p
    using archDetect_case_insensitive [of p] by blast
  have c1: "(if sublist ''x64'' (ToLower (''S:'' @ bslash @ ''X64'' @ bslash @ ''foo.pdb''))
          \<or> sublist ''amd64'' (ToLower (''S:'' @ bslash @ ''X64'' @ bslash @ ''foo.pdb''))
        then ArchX64 else ArchX86) = ArchX64"
    by code_simp
  have c2: "(if sublist ''x64'' (ToLower (''S:'' @ bslash @ ''x64'' @ bslash @ ''foo.pdb''))
          \<or> sublist ''amd64'' (ToLower (''S:'' @ bslash @ ''x64'' @ bslash @ ''foo.pdb''))
        then ArchX64 else ArchX86) = ArchX64"
    by code_simp
  have c3: "(if sublist ''x64'' (ToLower (''S:'' @ bslash @ ''AMD64'' @ bslash @ ''foo.pdb''))
          \<or> sublist ''amd64'' (ToLower (''S:'' @ bslash @ ''AMD64'' @ bslash @ ''foo.pdb''))
        then ArchX64 else ArchX86) = ArchX64"
    by code_simp
  have c4: "(if sublist ''x64'' (ToLower (''S:'' @ bslash @ ''x86'' @ bslash @ ''foo.pdb''))
          \<or> sublist ''amd64'' (ToLower (''S:'' @ bslash @ ''x86'' @ bslash @ ''foo.pdb''))
        then ArchX64 else ArchX86) = ArchX86"
    by code_simp
  have c5: "(if sublist ''x64'' (ToLower (''S:'' @ bslash @ ''anything'' @ bslash @ ''foo.pdb''))
          \<or> sublist ''amd64'' (ToLower (''S:'' @ bslash @ ''anything'' @ bslash @ ''foo.pdb''))
        then ArchX64 else ArchX86) = ArchX86"
    by code_simp
  show ?thesis
    using low tok c1 c2 c3 c4 c5 by (simp only: rule simp_thms)
qed

subsection \<open>ParseSymbols\<close>

lemma symbolOfLine_unq:
  "symbolOfLine host cfg ver unq l =
     (case symbolOfLine host cfg ver Map.empty l of
        None \<Rightarrow> None
      | Some c \<Rightarrow> if unq (Hash c) = None then Some c else None)"
  by (auto simp: symbolOfLine_def Let_def)

lemma symbolOfLine_Some:
  "symbolOfLine host cfg ver unq l = Some s \<Longrightarrow>
     unq (Hash s) = None \<and> \<not> skipFn host cfg (Name s) \<and> symbolOfLine host cfg ver Map.empty l = Some s"
  by (auto simp: symbolOfLine_def Let_def split: if_splits)

lemma skipLoop_iff: "skipLoop host vs name \<longleftrightarrow> stringsToLower host name \<in> set vs"
  by (induction vs) auto

lemma stringsToLower_ascii:
  "list_all (\<lambda>c. (of_char c :: nat) < 0x80) s \<Longrightarrow> stringsToLower host s = ToLower s"
  by (simp add: stringsToLower_def)

lemma ToLower_fix:
  "list_all (\<lambda>c. \<not> (65 \<le> (of_char c :: nat) \<and> (of_char c :: nat) \<le> 90)) s \<Longrightarrow> ToLower s = s"
  by (induction s) (auto simp: ToLower_def lowerByte_def Let_def)

lemma symbolsLoop_count_ok:
  "symbolsLoop host cfg ver handler ls tot unq h = (n, None, h', called) \<Longrightarrow>
     n = tot + of_nat (length called)"
  by (induction ls arbitrary: tot unq h n h' called)
     (fastforce split: option.splits prod.splits simp: add.assoc)+

lemma symbolsLoop_count_err:
  "symbolsLoop host cfg ver handler ls tot unq h = (n, Some err, h', called) \<Longrightarrow>
     called \<noteq> [] \<and> n = tot + of_nat (length (butlast called))"
proof (induction ls arbitrary: tot unq h n h' called)
  case Nil
  then show ?case by simp
next
  case (Cons l ls)
  show ?case
  proof (cases "symbolOfLine host cfg ver unq l")
    case None
    with Cons show ?thesis by simp
  next
    case (Some s)
    obtain r hx where hr: "handler h s = (r, hx)" by (cases "handler h s")
    show ?thesis
    proof (cases r)
      case (Some e)
      with hr \<open>symbolOfLine host cfg ver unq l = Some s\<close> Cons.prems
      have "called = [s]" "n = tot" by simp_all
      then show ?thesis by simp
    next
      case None
      obtain n1 e1 h1 c1 where rec:
        "symbolsLoop host cfg ver handler ls (tot + 1) (unq(Hash s \<mapsto> s)) hx = (n1, e1, h1, c1)"
        by (cases "symbolsLoop host cfg ver handler ls (tot + 1) (unq(Hash s \<mapsto> s)) hx") auto
      with None hr \<open>symbolOfLine host cfg ver unq l = Some s\<close> Cons.prems
      have res: "called = s # c1" "n1 = n" "e1 = Some err" "h1 = h'" by simp_all
      from Cons.IH [OF rec [unfolded res]] have ne: "c1 \<noteq> []"
        and n: "n = tot + 1 + of_nat (length (butlast c1))" by simp_all
      from ne obtain k where k: "length c1 = Suc k" by (cases c1) auto
      with ne n res show ?thesis by (simp add: add.assoc)
    qed
  qed
qed

lemma symbolsLoop_feed:
  "symbolsLoop host cfg ver handler ls tot unq h = (n, e, h', called) \<Longrightarrow>
     feed handler h called = (e, h') \<and> fst (feed handler h (butlast called)) = None"
  by (induction ls arbitrary: tot unq h n e h' called)
     (fastforce split: option.splits prod.splits if_splits)+

lemma find_filter_cong:
  "(\<And>x. x \<in> set xs \<Longrightarrow> P x \<Longrightarrow> Q x = Q' x) \<Longrightarrow> find P (filter Q xs) = find P (filter Q' xs)"
  by (induction xs) auto

text \<open>C1 counterexample: the callback rejects the first symbol; the count returned is 0.\<close>

theorem ParseSymbols_count_counterexample:
  "ParseSymbols exHost exConfig (Inr exIndex) exRegistry ''0000000001'' (Some rejectAll) ()
     = (0, Some (OSError ''rejected''), (), [exSym1])
   \<and> (0 :: go_int) \<noteq> of_nat (length [exSym1])"
  by code_simp

text \<open>
  C1, amended. ParseSymbols returns the number of symbols that the callback accepted: the
  length of the list of symbols it was called with when no error is returned, and one
  less when the callback failed, since the failing symbol is the last of the list and
  the count is incremented after the callback only. So when the callback fails on the
  n-th unique symbol, the count returned is n - 1.
\<close>

theorem ParseSymbols_count:
  assumes "ParseSymbols host cfg indexFile b buildID handler h = (n, e, h', called)"
  shows "n = of_nat (length (if e = None then called else butlast called))
     \<and> fst (feed (case handler of None \<Rightarrow> nilHandler | Some f \<Rightarrow> f) h (butlast called)) = None
     \<and> (called \<noteq> [] \<longrightarrow>
          feed (case handler of None \<Rightarrow> nilHandler | Some f \<Rightarrow> f) h called = (e, h'))"
proof (cases "getBuild b [] buildID")
  case None
  with assms show ?thesis by (auto simp: ParseSymbols_def)
next
  case (Some build)
  show ?thesis
  proof (cases indexFile)
    case (Inl err)
    with Some assms show ?thesis by (auto simp: ParseSymbols_def)
  next
    case (Inr content)
    with Some assms have run:
      "symbolsLoop host cfg (Version build) (case handler of None \<Rightarrow> nilHandler | Some f \<Rightarrow> f)
         (readLines [] content) 0 Map.empty h = (n, e, h', called)"
      by (simp add: ParseSymbols_def)
    have "n = of_nat (length (if e = None then called else butlast called))"
    proof (cases e)
      case None
      with run show ?thesis by (auto dest: symbolsLoop_count_ok)
    next
      case (Some err)
      with run show ?thesis by (auto dest: symbolsLoop_count_err)
    qed
    with symbolsLoop_feed [OF run] show ?thesis by simp
  qed
qed

theorem ParseSymbols_count_witness:
  "ParseSymbols exHost exConfig (Inr exIndex) exRegistry ''0000000001'' (Some failSecond) 0
     = (1, Some (OSError ''second''), 1, [exSym1, exSym2])
   \<and> (1 :: go_int) = of_nat (length (butlast [exSym1, exSym2]))
   \<and> feed failSecond 0 [exSym1, exSym2] = (Some (OSError ''second''), 1)"
proof -
  have run: "ParseSymbols exHost exConfig (Inr exIndex) exRegistry ''0000000001'' (Some failSecond) 0
     = (1, Some (OSError ''second''), 1, [exSym1, exSym2])"
    by code_simp
  from ParseSymbols_count [OF run] show ?thesis
    using run by simp
qed

lemma symbolsLoop_first:
  "symbolsLoop host cfg ver handler ls tot unq h = (n, e, h', called) \<Longrightarrow>
     distinct (map Hash called) \<and>
     (\<forall>s \<in> set called. unq (Hash s) = None \<and> \<not> skipFn host cfg (Name s) \<and>
        find (\<lambda>c. Hash c = Hash s)
          (filter (\<lambda>c. unq (Hash c) = None) (List.map_filter (symbolOfLine host cfg ver Map.empty) ls)) = Some s)"
proof (induction ls arbitrary: tot unq h n e h' called)
  case Nil
  then show ?case by simp
next
  case (Cons l ls)
  show ?case
  proof (cases "symbolOfLine host cfg ver unq l")
    case None
    then have "filter (\<lambda>c. unq (Hash c) = None) (List.map_filter (symbolOfLine host cfg ver Map.empty) (l # ls))
       = filter (\<lambda>c. unq (Hash c) = None) (List.map_filter (symbolOfLine host cfg ver Map.empty) ls)"
      using symbolOfLine_unq [of host cfg ver unq l]
      by (auto simp: List.map_filter_simps split: option.splits if_splits)
    with None Cons show ?thesis by simp
  next
    case (Some s)
    note props = symbolOfLine_Some [OF Some]
    then have flt: "filter (\<lambda>c. unq (Hash c) = None) (List.map_filter (symbolOfLine host cfg ver Map.empty) (l # ls))
       = s # filter (\<lambda>c. unq (Hash c) = None) (List.map_filter (symbolOfLine host cfg ver Map.empty) ls)"
      by (simp add: List.map_filter_simps)
    obtain r hx where hr: "handler h s = (r, hx)" by (cases "handler h s")
    show ?thesis
    proof (cases r)
      case (Some err)
      with hr \<open>symbolOfLine host cfg ver unq l = Some s\<close> Cons.prems have "called = [s]" by simp
      with props flt show ?thesis by simp
    next
      case None
      obtain n1 e1 h1 c1 where rec:
        "symbolsLoop host cfg ver handler ls (tot + 1) (unq(Hash s \<mapsto> s)) hx = (n1, e1, h1, c1)"
        by (cases "symbolsLoop host cfg ver handler ls (tot + 1) (unq(Hash s \<mapsto> s)) hx") auto
      with None hr \<open>symbolOfLine host cfg ver unq l = Some s\<close> Cons.prems have called: "called = s # c1" by simp
      note ih = Cons.IH [OF rec]
      have tail: "Hash x \<noteq> Hash s \<and> unq (Hash x) = None \<and> \<not> skipFn host cfg (Name x) \<and>
            find (\<lambda>c. Hash c = Hash x)
              (s # filter (\<lambda>c. unq (Hash c) = None) (List.map_filter (symbolOfLine host cfg ver Map.empty) ls)) = Some x"
        if "x \<in> set c1" for x
      proof -
        from ih that have ne: "Hash x \<noteq> Hash s" and un: "unq (Hash x) = None"
          and sk: "\<not> skipFn host cfg (Name x)"
          by (auto split: if_splits)
        have "find (\<lambda>c. Hash c = Hash x)
              (filter (\<lambda>c. unq (Hash c) = None) (List.map_filter (symbolOfLine host cfg ver Map.empty) ls))
            = find (\<lambda>c. Hash c = Hash x)
              (filter (\<lambda>c. (unq(Hash s \<mapsto> s)) (Hash c) = None) (List.map_filter (symbolOfLine host cfg ver Map.empty) ls))"
          by (rule find_filter_cong) (use ne in auto)
        also have "\<dots> = Some x"
          using ih that by blast
        finally show ?thesis
          using ne un sk by simp
      qed
      have ne: "Hash x \<noteq> Hash s" if "x \<in> set c1" for x
        using tail [OF that] by (rule conjunct1)
      then have "Hash s \<notin> Hash ` set c1"
        by force
      moreover have "distinct (map Hash c1)"
        using ih by blast
      ultimately have d: "distinct (map Hash (s # c1))"
        by simp
      have hd: "unq (Hash s) = None \<and> \<not> skipFn host cfg (Name s) \<and>
            find (\<lambda>c. Hash c = Hash s)
              (s # filter (\<lambda>c. unq (Hash c) = None) (List.map_filter (symbolOfLine host cfg ver Map.empty) ls)) = Some s"
        using props by simp
      show ?thesis
        unfolding called flt
      proof (rule conjI [OF d], rule ballI)
        fix x
        assume "x \<in> set (s # c1)"
        then have "x = s \<or> x \<in> set c1" by simp
        then show "unq (Hash x) = None \<and> \<not> skipFn host cfg (Name x) \<and>
            find (\<lambda>c. Hash c = Hash x)
              (s # filter (\<lambda>c. unq (Hash c) = None) (List.map_filter (symbolOfLine host cfg ver Map.empty) ls)) = Some x"
        proof
          assume "x = s"
          with hd show ?thesis by simp
        next
          assume "x \<in> set c1"
          from tail [OF this] show ?thesis by (rule conjunct2)
        qed
      qed
    qed
  qed
qed

text \<open>
  C4 counterexample: the exclude list holds \<open>VC90.PDB\<close> as written; a symbol of exactly
  that name is emitted. The same with a list that holds a name with the byte \<open>0xFF\<close>:
  the name is lowered to one with U+FFFD in its place, which is not the entry.
\<close>

theorem ParseSymbols_exclude_counterexample:
  "ParseSymbols exHost exConfigUpper (Inr (indexLine ''VC90.PDB'' ''11AA'' ''vc90.pdb'')) exRegistry
       ''0000000001'' None ()
     = (1, None, (), [exSymUpper])
   \<and> Name exSymUpper \<in> set (SymExcludeList exConfigUpper)
   \<and> ParseSymbols exHost exConfigRaw (Inr (indexLine exRawName ''22BB'' ''raw.pdb'')) exRegistry
       ''0000000001'' None ()
     = (1, None, (), [exSymRaw])
   \<and> Name exSymRaw \<in> set (SymExcludeList exConfigRaw)
   \<and> stringsToLower exHost exRawName = [CHR 0xEF, CHR 0xBF, CHR 0xBD] @ ''.pdb''"
  by code_simp

text \<open>
  C4, amended. No two symbols handed to the callback by one call of ParseSymbols share a
  hash, and each is the first candidate of the input with its hash. A symbol is never
  emitted when \<^verbatim>\<open>strings.ToLower\<close> of its name is, byte for byte, an entry of the exclude
  list. So, for an exclude list whose entries \<^verbatim>\<open>strings.ToLower\<close> leaves as they are
  (UTF-8 without capital letters), no symbol is emitted whose name and an entry have the
  same lower-case form, whatever the case of the name in the input.
\<close>

theorem ParseSymbols_unique:
  assumes "ParseSymbols host cfg indexFile b buildID handler h = (n, e, h', called)"
  shows "distinct (map Hash called)
     \<and> (\<forall>s \<in> set called. stringsToLower host (Name s) \<notin> set (SymExcludeList cfg))
     \<and> (\<forall>s \<in> set called. \<exists>content build.
           indexFile = Inr content \<and> getBuild b [] buildID = Some build \<and>
           find (\<lambda>c. Hash c = Hash s)
             (List.map_filter (symbolOfLine host cfg (Version build) Map.empty) (readLines [] content))
             = Some s)
     \<and> ((\<forall>v \<in> set (SymExcludeList cfg). stringsToLower host v = v) \<longrightarrow>
          (\<forall>s \<in> set called. \<forall>v \<in> set (SymExcludeList cfg).
             stringsToLower host (Name s) \<noteq> stringsToLower host v))"
proof (cases "getBuild b [] buildID")
  case None
  with assms show ?thesis by (auto simp: ParseSymbols_def)
next
  case (Some build)
  show ?thesis
  proof (cases indexFile)
    case (Inl err)
    with Some assms show ?thesis by (auto simp: ParseSymbols_def)
  next
    case (Inr content)
    with Some assms have run:
      "symbolsLoop host cfg (Version build) (case handler of None \<Rightarrow> nilHandler | Some f \<Rightarrow> f)
         (readLines [] content) 0 Map.empty h = (n, e, h', called)"
      by (simp add: ParseSymbols_def)
    note first = symbolsLoop_first [OF run]
    have d: "distinct (map Hash called)"
      using first by blast
    have x: "stringsToLower host (Name s) \<notin> set (SymExcludeList cfg)" if "s \<in> set called" for s
      using first that by (auto simp: skipFn_def skipLoop_iff)
    have f: "find (\<lambda>c. Hash c = Hash s)
             (List.map_filter (symbolOfLine host cfg (Version build) Map.empty) (readLines [] content))
             = Some s" if "s \<in> set called" for s
      using first that by auto
    have l: "stringsToLower host (Name s) \<noteq> stringsToLower host v"
      if "s \<in> set called" "v \<in> set (SymExcludeList cfg)"
        "\<forall>v \<in> set (SymExcludeList cfg). stringsToLower host v = v" for s v
      using x [OF that(1)] that(2,3) by metis
    show ?thesis
      using d x f l Some Inr by blast
  qed
qed

text \<open>
  An index of five lines under the list \<open>vc90.pdb\<close>, \<open>U+00E9.pdb\<close>: the lines named
  \<open>U+00C9.PDB\<close> and \<open>VC90.PDB\<close> are excluded and the second line with hash \<open>8E38\<close> is
  dropped.
\<close>

theorem ParseSymbols_unique_witness:
  "ParseSymbols exHost exConfigLatin (Inr exIndexLatin) exRegistry ''0000000001'' None ()
     = (2, None, (), [exSym1, exSym2])
   \<and> distinct (map Hash [exSym1, exSym2])
   \<and> stringsToLower exHost ''vc90.pdb'' = ''vc90.pdb''
   \<and> stringsToLower exHost exSmallName = exSmallName
   \<and> stringsToLower exHost ''VC90.PDB'' = ''vc90.pdb''
   \<and> stringsToLower exHost exCapName = exSmallName
   \<and> stringsToLower exHost (Name exSym1) \<noteq> stringsToLower exHost ''vc90.pdb''
   \<and> stringsToLower exHost (Name exSym1) \<noteq> stringsToLower exHost exSmallName
   \<and> stringsToLower exHost (Name exSym2) \<noteq> stringsToLower exHost ''vc90.pdb''
   \<and> stringsToLower exHost (Name exSym2) \<noteq> stringsToLower exHost exSmallName
   \<and> find (\<lambda>c. Hash c = Hash exSym1)
         (List.map_filter (symbolOfLine exHost exConfigLatin (Version exBuild) Map.empty)
            (readLines [] exIndexLatin))
       = Some exSym1"
proof -
  have run: "ParseSymbols exHost exConfigLatin (Inr exIndexLatin) exRegistry ''0000000001'' None ()
     = (2, None, (), [exSym1, exSym2])"
    by code_simp
  have low1: "stringsToLower exHost ''vc90.pdb'' = ''vc90.pdb''"
    by code_simp
  have low2: "stringsToLower exHost exSmallName = exSmallName"
    by code_simp
  have low3: "stringsToLower exHost ''VC90.PDB'' = ''vc90.pdb''"
    by code_simp
  have low4: "stringsToLower exHost exCapName = exSmallName"
    by code_simp
  from low1 low2 have all: "\<forall>v \<in> set (SymExcludeList exConfigLatin). stringsToLower exHost v = v"
    by (simp add: exConfigLatin_def)
  have gb: "getBuild exRegistry [] ''0000000001'' = Some exBuild"
    by code_simp
  note th = ParseSymbols_unique [OF run]
  from th have "\<exists>content build.
      (Inr exIndexLatin :: osfile) = Inr content \<and> getBuild exRegistry [] ''0000000001'' = Some build \<and>
      find (\<lambda>c. Hash c = Hash exSym1)
        (List.map_filter (symbolOfLine exHost exConfigLatin (Version build) Map.empty) (readLines [] content))
        = Some exSym1"
    by simp
  with gb have first: "find (\<lambda>c. Hash c = Hash exSym1)
         (List.map_filter (symbolOfLine exHost exConfigLatin (Version exBuild) Map.empty)
            (readLines [] exIndexLatin))
       = Some exSym1"
    by auto
  from th have d: "distinct (map Hash [exSym1, exSym2])"
    by simp
  from th all have ne: "\<forall>s \<in> set [exSym1, exSym2]. \<forall>v \<in> set (SymExcludeList exConfigLatin).
      stringsToLower exHost (Name s) \<noteq> stringsToLower exHost v"
    by blast
  then have n1: "stringsToLower exHost (Name exSym1) \<noteq> stringsToLower exHost ''vc90.pdb''"
    and n2: "stringsToLower exHost (Name exSym1) \<noteq> stringsToLower exHost exSmallName"
    and n3: "stringsToLower exHost (Name exSym2) \<noteq> stringsToLower exHost ''vc90.pdb''"
    and n4: "stringsToLower exHost (Name exSym2) \<noteq> stringsToLower exHost exSmallName"
    by (simp_all add: exConfigLatin_def)
  show ?thesis
    using run d low1 low2 low3 low4 n1 n2 n3 n4 first by (intro conjI)
qed

subsection \<open>ParseBuilds\<close>

lemma readLines_acc:
  "readLines acc r =
     (case ReadString r of (str, r', eof) \<Rightarrow> if eof then [] else (acc @ str) # readLines [] r')"
proof (induction r arbitrary: acc)
  case Nil
  then show ?case by (simp add: ReadString_def)
next
  case (Cons c cs)
  show ?case
  proof (cases "c = nl")
    case True
    then show ?thesis by (simp add: ReadString_def)
  next
    case False
    show ?thesis
    proof (cases "dropWhile (\<lambda>c. c \<noteq> nl) cs")
      case Nil
      with False Cons.IH [of "acc @ [c]"] show ?thesis
        by (simp add: ReadString_def del: dropWhile_eq_Nil_conv)
    next
      case (Cons x xs)
      with False Cons.IH [of "acc @ [c]"] show ?thesis
        by (simp add: ReadString_def del: dropWhile_eq_Nil_conv)
    qed
  qed
qed

lemma readLines_ReadString:
  "readLines [] r =
     (case ReadString r of (str, r', eof) \<Rightarrow> if eof then [] else str # readLines [] r')"
  by (subst readLines_acc) (simp split: prod.splits)

lemma readLines_terminated:
  "l \<in> set (readLines acc r) \<Longrightarrow> nl \<notin> set acc \<Longrightarrow> \<exists>body. l = body @ [nl] \<and> nl \<notin> set body"
  by (induction r arbitrary: acc) (auto split: if_splits)

lemma readLines_concat:
  "nl \<notin> set acc \<Longrightarrow> \<exists>rest. acc @ r = concat (readLines acc r) @ rest \<and> nl \<notin> set rest"
proof (induction r arbitrary: acc)
  case Nil
  then show ?case by simp
next
  case (Cons c cs)
  show ?case
  proof (cases "c = nl")
    case True
    from Cons.IH [of "[]"] obtain rest where "cs = concat (readLines [] cs) @ rest" "nl \<notin> set rest"
      by auto
    with True show ?thesis by auto
  next
    case False
    with Cons.prems have "nl \<notin> set (acc @ [c])" by simp
    from Cons.IH [OF this] False show ?thesis by simp
  qed
qed

lemma readLines_whole:
  assumes "content = [] \<or> last content = nl"
  shows "concat (readLines [] content) = content"
proof -
  from readLines_concat [of "[]" content] obtain rest
    where c: "content = concat (readLines [] content) @ rest" and r: "nl \<notin> set rest"
    by auto
  have "rest = []"
  proof (rule ccontr)
    assume ne: "rest \<noteq> []"
    with c have "last content = last rest" by (metis last_appendR)
    moreover from ne c have "content \<noteq> []" by auto
    ultimately have "last rest = nl" using assms by simp
    with ne r show False using last_in_set by metis
  qed
  with c show ?thesis by simp
qed

lemma buildsLoop_count:
  "buildsLoop host handler ls tot b h = (n, e, b', h', called) \<Longrightarrow>
     n = tot + of_nat (length called) \<and> BuildsCount b' = BuildsCount b + of_nat (length called)"
  by (induction ls arbitrary: tot b h n e b' h' called)
     (fastforce split: option.splits prod.splits simp: add.assoc Let_def addBuild_def)+

lemma buildsLoop_ok:
  "buildsLoop host handler ls tot b h = (n, None, b', h', called) \<Longrightarrow>
     called = List.map_filter (buildOfLine host) ls"
  by (induction ls arbitrary: tot b h n b' h' called)
     (fastforce split: option.splits prod.splits simp: Let_def List.map_filter_simps)+

lemma buildsLoop_feed:
  "buildsLoop host handler ls tot b h = (n, e, b', h', called) \<Longrightarrow>
     feed handler h called = (e, h') \<and> fst (feed handler h (butlast called)) = None
     \<and> (e \<noteq> None \<longrightarrow> called \<noteq> [])"
  by (induction ls arbitrary: tot b h n e b' h' called)
     (fastforce split: option.splits prod.splits if_splits simp: Let_def)+

lemma buildsLoop_none:
  "buildsLoop host handler ls tot b h = (n, e, b', h', []) \<Longrightarrow> b' = b"
  by (induction ls arbitrary: tot b h n e b' h')
     (fastforce split: option.splits prod.splits simp: Let_def)+

lemma buildsLoop_last:
  "buildsLoop host handler ls tot b h = (n, e, b', h', called) \<Longrightarrow> called \<noteq> [] \<Longrightarrow>
     map_of (builds b') (ID (last called)) = Some (last called) \<and>
     LatestBuild b' = Version (last called) \<and> UpdateDate b' = Date (last called)"
proof (induction ls arbitrary: tot b h n e b' h' called)
  case Nil
  then show ?case by simp
next
  case (Cons l ls)
  show ?case
  proof (cases "buildOfLine host l")
    case None
    with Cons show ?thesis by simp
  next
    case (Some bd)
    define b1 where "b1 = (addBuild bd b)\<lparr>LatestBuild := Version bd\<rparr>"
    have b1: "map_of (builds b1) (ID bd) = Some bd" "LatestBuild b1 = Version bd" "UpdateDate b1 = Date bd"
      by (simp_all add: b1_def addBuild_def update_conv')
    obtain r hx where hr: "handler h bd = (r, hx)" by (cases "handler h bd")
    show ?thesis
    proof (cases r)
      case (Some err)
      with hr \<open>buildOfLine host l = Some bd\<close> Cons.prems(1) have "called = [bd]" "b' = b1"
        by (simp_all add: b1_def)
      with b1 show ?thesis by simp
    next
      case None
      obtain n1 e1 b2 h2 c2 where rec: "buildsLoop host handler ls (tot + 1) b1 hx = (n1, e1, b2, h2, c2)"
        by (cases "buildsLoop host handler ls (tot + 1) b1 hx") auto
      with None hr \<open>buildOfLine host l = Some bd\<close> Cons.prems(1)
      have res: "called = bd # c2" "b' = b2"
        by (simp_all add: b1_def)
      show ?thesis
      proof (cases "c2 = []")
        case True
        with rec have "b2 = b1" by (auto dest: buildsLoop_none)
        with True res b1 show ?thesis by simp
      next
        case False
        from Cons.IH [OF rec False] res False show ?thesis by simp
      qed
    qed
  qed
qed

lemma buildOfLine_fields:
  "buildOfLine host line =
     (let ss = Split (Trim line [cr, nl]) (CHR '','')
      in if length ss < 8 then None
         else Some \<lparr>ID = ss ! 0,
                    Date = (case parseDate (ss ! 3 @ '' '' @ ss ! 4) of
                              None \<Rightarrow> ss ! 3 @ '' '' @ ss ! 4
                            | Some t \<Rightarrow> formatDate (Local host t)),
                    BranchOf = Trim (ss ! 5) quote,
                    Version = Trim (ss ! 6) quote,
                    Comment = Trim (ss ! 7) quote\<rparr>)"
  by (simp add: buildOfLine_def Let_def quote_def split: option.splits)

lemma sample_build_host:
  "buildOfLine host (sampleLine @ crlf) =
     Some \<lparr>ID = ''0000000001'', Date = formatDate (Local host exTime),
           BranchOf = ''UDPv6.5U2'', Version = ''4175.2-538'', Comment = ''2017/7/4_14:44:14''\<rparr>"
  by code_simp

lemma sample_format: "formatDate exTime = ''2017-07-04 14:44:14''"
  by code_simp

lemma sample_build:
  "Local host exTime = exTime \<Longrightarrow> buildOfLine host (sampleLine @ crlf) = Some exBuild"
  by (simp add: sample_build_host sample_format exBuild_def)

text \<open>
  C3 counterexample: a history log that is the spec's line with no newline after it. The
  line has nine fields; no build is produced.
\<close>

theorem ParseBuilds_unterminated_counterexample:
  "ParseBuilds exHost (Inr sampleLine) exFresh None () = (0, None, exFresh, (), [])
   \<and> length (Split sampleLine (CHR '','')) = 9"
  by code_simp

text \<open>
  C3, amended. For a history log in which every line ends in a newline, read from the
  history file with an empty registry and a callback that does not fail, ParseBuilds
  produces exactly one Build per line that splits on commas into at least 8 fields, in
  order, and returns their number; lines of fewer fields are skipped. Each Build
  takes field 0 as ID, fields 5, 6 and 7 without their quotes as branch, version and
  comment, and as date the fields 3 and 4 joined by a space, reformatted when they parse
  as \<open>MM/DD/YYYY HH:MM:SS\<close> and kept as they are otherwise. The line of the spec,
  followed by a line end, gives the Build of the spec.
\<close>

theorem ParseBuilds_one_build_per_line:
  assumes "builds b = []"
    and "content = [] \<or> last content = nl"
    and "ParseBuilds host (Inr content) b handler h = (n, None, b', h', called)"
  shows "called = List.map_filter (buildOfLine host) (readLines [] content)
     \<and> n = of_nat (length called)
     \<and> concat (readLines [] content) = content
     \<and> (\<forall>line \<in> set (readLines [] content).
          (\<exists>body. line = body @ [nl] \<and> nl \<notin> set body) \<and>
          buildOfLine host line =
            (let ss = Split (Trim line [cr, nl]) (CHR '','')
             in if length ss < 8 then None
                else Some \<lparr>ID = ss ! 0,
                           Date = (case parseDate (ss ! 3 @ '' '' @ ss ! 4) of
                                     None \<Rightarrow> ss ! 3 @ '' '' @ ss ! 4
                                   | Some t \<Rightarrow> formatDate (Local host t)),
                           BranchOf = Trim (ss ! 5) quote,
                           Version = Trim (ss ! 6) quote,
                           Comment = Trim (ss ! 7) quote\<rparr>))
     \<and> (Local host exTime = exTime \<longrightarrow> buildOfLine host (sampleLine @ crlf) = Some exBuild)"
proof -
  from assms have run:
    "buildsLoop host (case handler of None \<Rightarrow> nilHandler | Some f \<Rightarrow> f)
       (readLines [] content) 0 (b\<lparr>BuildsCount := 0\<rparr>) h = (n, None, b', h', called)"
    by (simp add: ParseBuilds_def)
  have c: "called = List.map_filter (buildOfLine host) (readLines [] content)"
    using run by (rule buildsLoop_ok)
  have n: "n = of_nat (length called)"
    using buildsLoop_count [OF run] by simp
  have r: "concat (readLines [] content) = content"
    using assms(2) by (rule readLines_whole)
  have t: "\<exists>body. line = body @ [nl] \<and> nl \<notin> set body" if "line \<in> set (readLines [] content)" for line
    using readLines_terminated [OF that] by simp
  show ?thesis
    using c n r t buildOfLine_fields sample_build by blast
qed

theorem ParseBuilds_one_build_per_line_witness:
  "builds exFresh = []
   \<and> last exLog = nl
   \<and> ParseBuilds exHost (Inr exLog) exFresh None () = (2, None, exParsed, (), [exBuild, exBuild2])
   \<and> [exBuild, exBuild2] = List.map_filter (buildOfLine exHost) (readLines [] exLog)
   \<and> (2 :: go_int) = of_nat (length [exBuild, exBuild2])
   \<and> concat (readLines [] exLog) = exLog
   \<and> sampleLine @ crlf \<in> set (readLines [] exLog)
   \<and> (\<exists>body. sampleLine @ crlf = body @ [nl] \<and> nl \<notin> set body)
   \<and> Local exHost exTime = exTime
   \<and> buildOfLine exHost (sampleLine @ crlf) = Some exBuild"
proof -
  have e: "builds exFresh = []"
    by code_simp
  have run: "ParseBuilds exHost (Inr exLog) exFresh None () = (2, None, exParsed, (), [exBuild, exBuild2])"
    by code_simp
  have loc: "Local exHost exTime = exTime"
    by (simp add: exHost_def)
  have t: "last exLog = nl"
    by code_simp
  then have t': "exLog = [] \<or> last exLog = nl" ..
  note th = ParseBuilds_one_build_per_line [OF e t' run]
  from th have a: "[exBuild, exBuild2] = List.map_filter (buildOfLine exHost) (readLines [] exLog)"
    by (rule conjunct1)
  from th loc have s: "buildOfLine exHost (sampleLine @ crlf) = Some exBuild"
    by blast
  have k: "(2 :: go_int) = of_nat (length [exBuild, exBuild2])"
    by simp
  from th have w: "concat (readLines [] exLog) = exLog"
    by blast
  have m: "sampleLine @ crlf \<in> set (readLines [] exLog)"
    by code_simp
  with th have x: "\<exists>body. sampleLine @ crlf = body @ [nl] \<and> nl \<notin> set body"
    by blast
  show ?thesis
    by (intro conjI e t run a k w m x loc s)
qed

text \<open>
  C10. Reading the history file, when the callback fails on a Build, that Build is the
  last one the callback was called with, it is in the registry under its ID, BuildsCount
  counts it, the latest-build pointer is its version, and the count returned includes
  it; the error returned is the callback's.
\<close>

theorem ParseBuilds_callback_failure:
  assumes "builds b = []"
    and "ParseBuilds host (Inr content) b handler h = (n, Some err, b', h', called)"
  shows "called \<noteq> []
     \<and> feed (case handler of None \<Rightarrow> nilHandler | Some f \<Rightarrow> f) h called = (Some err, h')
     \<and> fst (feed (case handler of None \<Rightarrow> nilHandler | Some f \<Rightarrow> f) h (butlast called)) = None
     \<and> map_of (builds b') (ID (last called)) = Some (last called)
     \<and> BuildsCount b' = of_nat (length called)
     \<and> LatestBuild b' = Version (last called)
     \<and> n = of_nat (length called)"
proof -
  from assms have run:
    "buildsLoop host (case handler of None \<Rightarrow> nilHandler | Some f \<Rightarrow> f)
       (readLines [] content) 0 (b\<lparr>BuildsCount := 0\<rparr>) h = (n, Some err, b', h', called)"
    by (simp add: ParseBuilds_def)
  note f = buildsLoop_feed [OF run]
  then have ne: "called \<noteq> []" by simp
  from buildsLoop_count [OF run] have "n = of_nat (length called)" "BuildsCount b' = of_nat (length called)"
    by simp_all
  with f ne buildsLoop_last [OF run ne] show ?thesis by simp
qed

theorem ParseBuilds_callback_failure_witness:
  "builds exFresh = []
   \<and> ParseBuilds exHost (Inr exLog) exFresh (Some failSecond) 0
       = (2, Some (OSError ''second''), exParsed, 1, [exBuild, exBuild2])
   \<and> map_of (builds exParsed) (ID exBuild2) = Some exBuild2
   \<and> BuildsCount exParsed = 2
   \<and> LatestBuild exParsed = Version exBuild2"
proof -
  have e: "builds exFresh = []"
    by code_simp
  have run: "ParseBuilds exHost (Inr exLog) exFresh (Some failSecond) 0
       = (2, Some (OSError ''second''), exParsed, 1, [exBuild, exBuild2])"
    by code_simp
  note th = ParseBuilds_callback_failure [OF e run]
  from th have m: "map_of (builds exParsed) (ID (last [exBuild, exBuild2])) = Some (last [exBuild, exBuild2])"
    and c: "BuildsCount exParsed = of_nat (length [exBuild, exBuild2])"
    and l: "LatestBuild exParsed = Version (last [exBuild, exBuild2])"
    by blast+
  from m have m': "map_of (builds exParsed) (ID exBuild2) = Some exBuild2" by simp
  from c have c': "BuildsCount exParsed = 2" by simp
  from l have l': "LatestBuild exParsed = Version exBuild2" by simp
  show ?thesis
    by (intro conjI e run m' c' l')
qed

subsection \<open>AddBuild\<close>

lemma findVersion_iff: "findVersion al v \<noteq> None \<longleftrightarrow> v \<in> Version ` snd ` set al"
  by (induction al v rule: findVersion.induct) auto

lemma getSymbols_result:
  "getSymbols host cfg ext b v =
     (case firstError [createZipErr ext, openSourceErr ext, copyErr ext] of
        Some err \<Rightarrow> Inl err
      | None \<Rightarrow> Inr (Join host [symPath b, PDBZipFile cfg]))"
  by (cases "createZipErr ext"; cases "openSourceErr ext"; cases "copyErr ext")
     (simp_all add: getSymbols_def)

lemma updateLatestBuild_result:
  "fst (updateLatestBuild ext d latest) = firstError [openLatestErr ext, writeLatestErr ext]"
  "serverLatest (snd (updateLatestBuild ext d latest)) = serverLatest d"
  "fst (updateLatestBuild ext d latest) = None \<Longrightarrow>
     localLatest (snd (updateLatestBuild ext d latest)) = Inr latest"
  by (cases "openLatestErr ext"; cases "writeLatestErr ext";
      simp add: updateLatestBuild_def)+

lemma addSymStore_result:
  "addSymStore ext d b latest =
     ((case symstoreErr ext of
         Some err \<Rightarrow> Inl err
       | None \<Rightarrow> Inr \<lparr>ID = GetLatestID (d\<lparr>lastidTxt := symstoreLastid ext\<rparr>), Date = nowDate ext,
                      BranchOf = StoreName b, Version = latest, Comment = nowComment ext\<rparr>),
      d\<lparr>lastidTxt := symstoreLastid ext\<rparr>)"
  by (cases "symstoreErr ext") (simp_all add: addSymStore_def Let_def)

lemma stagedAdd_result:
  assumes "stagedAdd host cfg ext latest d b = (r, d', b')"
  shows "r = firstError [createZipErr ext, openSourceErr ext, copyErr ext, unzipErr ext,
                         symstoreErr ext, openLatestErr ext, writeLatestErr ext]
     \<and> serverLatest d' = serverLatest d
     \<and> (r \<noteq> None \<longrightarrow> b' = b)
     \<and> (r = None \<longrightarrow> localLatest d' = Inr latest \<and>
          (\<exists>build. b' = (addBuild build b)\<lparr>LatestBuild := latest\<rparr>))"
proof (cases "firstError [createZipErr ext, openSourceErr ext, copyErr ext]")
  case (Some err)
  then have "firstError [createZipErr ext, openSourceErr ext, copyErr ext, unzipErr ext,
                         symstoreErr ext, openLatestErr ext, writeLatestErr ext] = Some err"
    by (cases "createZipErr ext"; cases "openSourceErr ext"; cases "copyErr ext") simp_all
  moreover from Some assms have "r = Some err" "d' = d" "b' = b"
    by (simp_all add: stagedAdd_def getSymbols_result)
  ultimately show ?thesis
    by simp
next
  case None
  then have three: "createZipErr ext = None" "openSourceErr ext = None" "copyErr ext = None"
    by (cases "createZipErr ext"; cases "openSourceErr ext"; cases "copyErr ext"; simp)+
  show ?thesis
  proof (cases "unzipErr ext")
    case (Some err)
    with None three assms have "r = Some err" "d' = d" "b' = b"
      by (simp_all add: stagedAdd_def getSymbols_result)
    with three Some show ?thesis
      by simp
  next
    case u: None
    show ?thesis
    proof (cases "symstoreErr ext")
      case (Some err)
      with None three u assms have "r = Some err" "d' = d\<lparr>lastidTxt := symstoreLastid ext\<rparr>" "b' = b"
        by (simp_all add: stagedAdd_def getSymbols_result addSymStore_result)
      with three u Some show ?thesis
        by simp
    next
      case t: None
      obtain r2 d2 where upd: "updateLatestBuild ext (d\<lparr>lastidTxt := symstoreLastid ext\<rparr>) latest = (r2, d2)"
        by (cases "updateLatestBuild ext (d\<lparr>lastidTxt := symstoreLastid ext\<rparr>) latest")
      from updateLatestBuild_result [of ext "d\<lparr>lastidTxt := symstoreLastid ext\<rparr>" latest] upd
      have r2: "r2 = firstError [openLatestErr ext, writeLatestErr ext]"
        and s2: "serverLatest d2 = serverLatest d"
        and l2: "r2 = None \<Longrightarrow> localLatest d2 = Inr latest"
        by simp_all
      show ?thesis
      proof (cases r2)
        case (Some err)
        with None three u t upd assms have "r = Some err" "d' = d2" "b' = b"
          by (simp_all add: stagedAdd_def getSymbols_result addSymStore_result)
        with three u t Some r2 s2 show ?thesis
          by simp
      next
        case n2: None
        with None three u t upd assms have "r = None" "d' = d2"
          "\<exists>build. b' = (addBuild build b)\<lparr>LatestBuild := latest\<rparr>"
          by (auto simp: stagedAdd_def getSymbols_result addSymStore_result)
        with three u t n2 r2 s2 l2 show ?thesis
          by simp
      qed
    qed
  qed
qed

lemma AddBuild_cases:
  assumes "AddBuild host cfg ext v d b = (r, d', b')"
  shows "case resolveVersion d v of
           Inl r0 \<Rightarrow> r = r0 \<and> d' = d \<and> b' = b
         | Inr latest \<Rightarrow>
             if getBuild b latest [] \<noteq> None then r = None \<and> d' = d \<and> b' = b
             else (case mkdirAllErr ext of
                     Some err \<Rightarrow>
                       r = Some err \<and> d' = d \<and> b' = b\<lparr>symPath := Join host [StorePath b, unzipDir]\<rparr>
                   | None \<Rightarrow>
                       r = firstError [createZipErr ext, openSourceErr ext, copyErr ext,
                             unzipErr ext, symstoreErr ext, openLatestErr ext, writeLatestErr ext]
                       \<and> \<not> staging d' \<and> serverLatest d' = serverLatest d
                       \<and> (r \<noteq> None \<longrightarrow> b' = b\<lparr>symPath := Join host [StorePath b, unzipDir]\<rparr>)
                       \<and> (r = None \<longrightarrow> localLatest d' = Inr latest \<and>
                            (\<exists>build. b' = (addBuild build (b\<lparr>symPath := Join host [StorePath b, unzipDir]\<rparr>))
                                             \<lparr>LatestBuild := latest\<rparr>)))"
proof (cases "resolveVersion d v")
  case (Inl r0)
  with assms have "r = r0" "d' = d" "b' = b" by (simp_all add: AddBuild_def)
  with Inl show ?thesis by simp
next
  case (Inr latest)
  show ?thesis
  proof (cases "getBuild b latest [] \<noteq> None")
    case True
    with Inr assms have "r = None" "d' = d" "b' = b" by (simp_all add: AddBuild_def)
    with Inr True show ?thesis by simp
  next
    case False
    show ?thesis
    proof (cases "mkdirAllErr ext")
      case (Some err)
      with Inr False assms have "r = Some err" "d' = d"
        "b' = b\<lparr>symPath := Join host [StorePath b, unzipDir]\<rparr>"
        by (simp_all add: AddBuild_def Let_def)
      with Inr False Some show ?thesis by simp
    next
      case None
      define b1 where "b1 = b\<lparr>symPath := Join host [StorePath b, unzipDir]\<rparr>"
      obtain r0 d0 b0 where st: "stagedAdd host cfg ext latest (d\<lparr>staging := True\<rparr>) b1 = (r0, d0, b0)"
        by (cases "stagedAdd host cfg ext latest (d\<lparr>staging := True\<rparr>) b1") auto
      with Inr False None assms have res: "r = r0" "d' = d0\<lparr>staging := False\<rparr>" "b' = b0"
        by (auto simp: AddBuild_def Let_def b1_def)
      from stagedAdd_result [OF st] res Inr False None show ?thesis
        by (simp add: b1_def)
    qed
  qed
qed

text \<open>
  C6. When the staging directory has been created, AddBuild returns the error of the
  first stage that fails (creating or copying the archive, extracting it, the store
  tool, opening or writing the pointer file), and on every such path, failing or not,
  the staging directory is removed when AddBuild returns. Whenever AddBuild returns an
  error, the registry is as before: the same builds, count, latest build and date.
\<close>

theorem AddBuild_abort_and_cleanup:
  assumes "AddBuild host cfg ext buildVerion d b = (r, d', b')"
  shows "(r \<noteq> None \<longrightarrow>
            builds b' = builds b \<and> BuildsCount b' = BuildsCount b \<and>
            LatestBuild b' = LatestBuild b \<and> UpdateDate b' = UpdateDate b)
     \<and> (\<forall>latest. resolveVersion d buildVerion = Inr latest \<and> getBuild b latest [] = None \<and>
            mkdirAllErr ext = None \<longrightarrow>
            \<not> staging d' \<and>
            r = firstError [createZipErr ext, openSourceErr ext, copyErr ext, unzipErr ext,
                            symstoreErr ext, openLatestErr ext, writeLatestErr ext])"
  using AddBuild_cases [OF assms]
  by (cases "resolveVersion d buildVerion"; cases "mkdirAllErr ext")
     (auto split: if_splits)

theorem AddBuild_abort_and_cleanup_witness:
  "AddBuild exHost exConfig exExtBadZip [] exDisk exRegistry = (Some (OSError ''bad zip''), exDisk, exStaged)
   \<and> resolveVersion exDisk [] = Inr ''4175.2-539''
   \<and> getBuild exRegistry ''4175.2-539'' [] = None
   \<and> mkdirAllErr exExtBadZip = None
   \<and> \<not> staging exDisk
   \<and> builds exStaged = builds exRegistry
   \<and> BuildsCount exStaged = BuildsCount exRegistry
   \<and> Some (OSError ''bad zip'') =
       firstError [createZipErr exExtBadZip, openSourceErr exExtBadZip, copyErr exExtBadZip,
                   unzipErr exExtBadZip, symstoreErr exExtBadZip, openLatestErr exExtBadZip,
                   writeLatestErr exExtBadZip]"
proof -
  have run: "AddBuild exHost exConfig exExtBadZip [] exDisk exRegistry
      = (Some (OSError ''bad zip''), exDisk, exStaged)"
    by code_simp
  have rv: "resolveVersion exDisk [] = Inr ''4175.2-539''"
    by code_simp
  have gb: "getBuild exRegistry ''4175.2-539'' [] = None"
    by code_simp
  have mk: "mkdirAllErr exExtBadZip = None"
    by code_simp
  note th = AddBuild_abort_and_cleanup [OF run]
  from th have "builds exStaged = builds exRegistry" "BuildsCount exStaged = BuildsCount exRegistry"
    by simp_all
  moreover from th rv gb mk have "\<not> staging exDisk"
    "Some (OSError ''bad zip'') =
       firstError [createZipErr exExtBadZip, openSourceErr exExtBadZip, copyErr exExtBadZip,
                   unzipErr exExtBadZip, symstoreErr exExtBadZip, openLatestErr exExtBadZip,
                   writeLatestErr exExtBadZip]"
    by blast+
  ultimately show ?thesis
    using run rv gb mk by (intro conjI)
qed

lemma sint_succ: "sint (x :: go_int) < 2 ^ 63 - 1 \<Longrightarrow> sint (x + 1) = sint x + 1"
proof -
  assume a: "sint x < 2 ^ 63 - 1"
  have "- (2 ^ 63) \<le> sint x"
    using sint_ge [of x] by simp
  with a have "signed_take_bit 63 (sint x + 1) = sint x + 1"
    by (intro signed_take_bit_int_eq_self) simp_all
  then show ?thesis
    by (simp add: sint_word_add)
qed

lemma resolveVersion_empty:
  "resolveVersion d [] = Inr latest \<Longrightarrow>
     \<exists>c. serverLatest d = Inr c \<and> latest = Trim (fst (ReadString c)) [CHR '' '', cr, nl]"
  by (auto simp: resolveVersion_def getLatestBuild_def Let_def split: sum.splits if_splits)

lemma resolveVersion_current:
  assumes "serverLatest d = Inr c" and "localLatest d = Inr (Trim (fst (ReadString c)) [CHR '' '', cr, nl])"
  shows "resolveVersion d [] = Inl None"
proof -
  have "Trim (fst (ReadString (Trim (fst (ReadString c)) [CHR '' '', cr, nl]))) [CHR '' '', cr, nl]
      = Trim (fst (ReadString c)) [CHR '' '', cr, nl]"
    by (rule firstLine_fix) simp_all
  with assms show ?thesis
    by (simp add: resolveVersion_def getLatestBuild_def)
qed

text \<open>
  C5 counterexample: the version passed equals the local latest-build pointer, the
  registry is empty; AddBuild commits a build.
\<close>

theorem AddBuild_explicit_version_counterexample:
  "getLatestBuild exDisk True = Inr ''4175.2-538''
   \<and> resolveVersion exDisk ''4175.2-538'' = Inr ''4175.2-538''
   \<and> BuildsCount exFresh = 0
   \<and> fst (AddBuild exHost exConfig exExt ''4175.2-538'' exDisk exFresh) = None
   \<and> BuildsCount (snd (snd (AddBuild exHost exConfig exExt ''4175.2-538'' exDisk exFresh))) = 1
   \<and> map (Version \<circ> snd) (builds (snd (snd (AddBuild exHost exConfig exExt ''4175.2-538'' exDisk exFresh))))
       = [''4175.2-538'']"
  by code_simp

text \<open>
  C5, amended. AddBuild returns success and changes neither the registry nor the disk
  when it is called without a version and the pointer on the build server equals the
  local one, or when the resolved version is not empty and a Build of that version is in
  the registry (a version passed by the caller is not compared with the local pointer).
  When a call without a version has returned success, a second call without a version,
  with no new build on the server, returns success and changes nothing, whatever the
  tools would answer.
\<close>

theorem AddBuild_idempotent:
  "(getLatestBuild d False = Inr latest \<and>
      latest = (case getLatestBuild d True of Inl err \<Rightarrow> [] | Inr s \<Rightarrow> s) \<longrightarrow>
      AddBuild host cfg ext [] d b = (None, d, b))
   \<and> (resolveVersion d buildVerion = Inr latest' \<and> latest' \<noteq> [] \<and>
        latest' \<in> Version ` snd ` set (builds b) \<longrightarrow>
        AddBuild host cfg ext buildVerion d b = (None, d, b))
   \<and> (AddBuild host cfg ext [] d b = (None, d1, b1) \<longrightarrow>
        AddBuild host cfg ext' [] d1 b1 = (None, d1, b1))"
proof (intro conjI impI)
  assume "getLatestBuild d False = Inr latest \<and>
      latest = (case getLatestBuild d True of Inl err \<Rightarrow> [] | Inr s \<Rightarrow> s)"
  then have "resolveVersion d [] = Inl None"
    by (simp add: resolveVersion_def)
  then show "AddBuild host cfg ext [] d b = (None, d, b)"
    by (simp add: AddBuild_def)
next
  assume a: "resolveVersion d buildVerion = Inr latest' \<and> latest' \<noteq> [] \<and>
        latest' \<in> Version ` snd ` set (builds b)"
  then have "findVersion (builds b) latest' \<noteq> None"
    using findVersion_iff by blast
  with a have "getBuild b latest' [] \<noteq> None"
    by (auto simp: getBuild_def)
  with a show "AddBuild host cfg ext buildVerion d b = (None, d, b)"
    by (simp add: AddBuild_def)
next
  assume run: "AddBuild host cfg ext [] d b = (None, d1, b1)"
  note c = AddBuild_cases [OF run]
  show "AddBuild host cfg ext' [] d1 b1 = (None, d1, b1)"
  proof (cases "resolveVersion d []")
    case (Inl r0)
    with c have "r0 = None" "d1 = d" "b1 = b" by simp_all
    with Inl show ?thesis by (simp add: AddBuild_def)
  next
    case (Inr latest)
    show ?thesis
    proof (cases "getBuild b latest [] \<noteq> None")
      case True
      with c Inr have "d1 = d" "b1 = b" by simp_all
      with Inr True show ?thesis by (simp add: AddBuild_def)
    next
      case False
      with c Inr have mk: "mkdirAllErr ext = None"
        by (cases "mkdirAllErr ext") simp_all
      with c Inr False have l: "localLatest d1 = Inr latest" and s: "serverLatest d1 = serverLatest d"
        by simp_all
      from resolveVersion_empty [OF Inr] obtain content where
        "serverLatest d = Inr content" "latest = Trim (fst (ReadString content)) [CHR '' '', cr, nl]"
        by auto
      with l s have "resolveVersion d1 [] = Inl None"
        by (intro resolveVersion_current) simp_all
      then show ?thesis by (simp add: AddBuild_def)
    qed
  qed
qed

theorem AddBuild_idempotent_witness:
  "AddBuild exHost exConfig exExt [] exDisk exRegistry = (None, exDisk1, exRegistry1)
   \<and> AddBuild exHost exConfig exExtBadZip [] exDisk1 exRegistry1 = (None, exDisk1, exRegistry1)
   \<and> BuildsCount exRegistry1 = 2
   \<and> resolveVersion exDisk ''4175.2-538'' = Inr ''4175.2-538''
   \<and> ''4175.2-538'' \<in> Version ` snd ` set (builds exRegistry)
   \<and> AddBuild exHost exConfig exExt ''4175.2-538'' exDisk exRegistry = (None, exDisk, exRegistry)
   \<and> getLatestBuild exDisk1 False = Inr ''4175.2-539''
   \<and> getLatestBuild exDisk1 True = Inr ''4175.2-539''
   \<and> AddBuild exHost exConfig exExt [] exDisk1 exFresh = (None, exDisk1, exFresh)"
proof -
  have run: "AddBuild exHost exConfig exExt [] exDisk exRegistry = (None, exDisk1, exRegistry1)"
    by code_simp
  have again: "AddBuild exHost exConfig exExtBadZip [] exDisk1 exRegistry1 = (None, exDisk1, exRegistry1)"
    using AddBuild_idempotent [where host = exHost and cfg = exConfig and ext = exExt
        and d = exDisk and b = exRegistry and ?d1.0 = exDisk1 and ?b1.0 = exRegistry1
        and ext' = exExtBadZip] run
    by blast
  have cnt: "BuildsCount exRegistry1 = 2"
    by code_simp
  have rv: "resolveVersion exDisk ''4175.2-538'' = Inr ''4175.2-538''"
    by code_simp
  have mem: "''4175.2-538'' \<in> Version ` snd ` set (builds exRegistry)"
    by code_simp
  have ne: "''4175.2-538'' \<noteq> []"
    by simp
  have known: "AddBuild exHost exConfig exExt ''4175.2-538'' exDisk exRegistry = (None, exDisk, exRegistry)"
    using AddBuild_idempotent [where host = exHost and cfg = exConfig and ext = exExt
        and d = exDisk and b = exRegistry and buildVerion = "''4175.2-538''"
        and latest' = "''4175.2-538''"] rv mem ne
    by blast
  have p1: "getLatestBuild exDisk1 False = Inr ''4175.2-539''"
    by code_simp
  have p2: "getLatestBuild exDisk1 True = Inr ''4175.2-539''"
    by code_simp
  have current: "AddBuild exHost exConfig exExt [] exDisk1 exFresh = (None, exDisk1, exFresh)"
    using AddBuild_idempotent [where host = exHost and cfg = exConfig and ext = exExt
        and d = exDisk1 and b = exFresh and latest = "''4175.2-539''"] p1 p2
    by simp
  show ?thesis
    by (intro conjI run again cnt rv mem known p1 p2 current)
qed

subsection \<open>BuildsCount\<close>

text \<open>
  C2 counterexample: a registry restored with a count of five and no builds in memory
  parses a history of two builds; the count is two afterwards.
\<close>

theorem ParseBuilds_resets_count_counterexample:
  "BuildsCount exRestored = 5
   \<and> builds exRestored = []
   \<and> ParseBuilds exHost (Inr exLog) exRestored None () = (2, None, exParsed, (), [exBuild, exBuild2])
   \<and> BuildsCount exParsed = 2
   \<and> sint (BuildsCount exParsed) < sint (BuildsCount exRestored)"
  by code_simp

text \<open>
  C2, amended. addBuild adds one to BuildsCount (a strict increase below the largest
  int). AddBuild leaves BuildsCount as it is, or adds one when it commits a build.
  ParseBuilds leaves it as it is when it replays the builds in memory or cannot open the
  history file; when it reads the history file it sets BuildsCount to zero and counts
  again, so that afterwards BuildsCount is the number of builds parsed in this pass,
  which is the count returned.
\<close>

theorem BuildsCount_steps:
  "BuildsCount (addBuild build b) = BuildsCount b + 1
   \<and> (sint (BuildsCount b) < 2 ^ 63 - 1 \<longrightarrow>
        sint (BuildsCount (addBuild build b)) = sint (BuildsCount b) + 1)
   \<and> (AddBuild host cfg ext v d b = (r, d', b') \<longrightarrow>
        BuildsCount b' = BuildsCount b \<or> (r = None \<and> BuildsCount b' = BuildsCount b + 1))
   \<and> (ParseBuilds host serverTxt b handler h = (n, e, b2, h2, called) \<longrightarrow>
        (if builds b \<noteq> [] \<or> (\<exists>err. serverTxt = Inl err) then BuildsCount b2 = BuildsCount b
         else BuildsCount b2 = n \<and> n = of_nat (length called)))"
proof (intro conjI impI)
  show "BuildsCount (addBuild build b) = BuildsCount b + 1"
    by (simp add: addBuild_def)
next
  assume "sint (BuildsCount b) < 2 ^ 63 - 1"
  then show "sint (BuildsCount (addBuild build b)) = sint (BuildsCount b) + 1"
    by (simp add: addBuild_def sint_succ)
next
  assume run: "AddBuild host cfg ext v d b = (r, d', b')"
  show "BuildsCount b' = BuildsCount b \<or> (r = None \<and> BuildsCount b' = BuildsCount b + 1)"
    using AddBuild_cases [OF run]
    by (cases "resolveVersion d v"; cases "mkdirAllErr ext"; cases r)
       (auto simp: addBuild_def split: if_splits)
next
  assume run: "ParseBuilds host serverTxt b handler h = (n, e, b2, h2, called)"
  show "if builds b \<noteq> [] \<or> (\<exists>err. serverTxt = Inl err) then BuildsCount b2 = BuildsCount b
        else BuildsCount b2 = n \<and> n = of_nat (length called)"
  proof (cases "builds b \<noteq> []")
    case True
    with run show ?thesis
      by (auto simp: ParseBuilds_def Let_def split: prod.splits)
  next
    case False
    show ?thesis
    proof (cases serverTxt)
      case (Inl err)
      with False run show ?thesis by (auto simp: ParseBuilds_def)
    next
      case (Inr content)
      with False run have
        "buildsLoop host (case handler of None \<Rightarrow> nilHandler | Some f \<Rightarrow> f)
           (readLines [] content) 0 (b\<lparr>BuildsCount := 0\<rparr>) h = (n, e, b2, h2, called)"
        by (simp add: ParseBuilds_def)
      from buildsLoop_count [OF this] False Inr show ?thesis by simp
    qed
  qed
qed

theorem BuildsCount_steps_witness:
  "BuildsCount (addBuild exBuild exFresh) = BuildsCount exFresh + 1
   \<and> sint (BuildsCount exFresh) < 2 ^ 63 - 1
   \<and> sint (BuildsCount (addBuild exBuild exFresh)) = sint (BuildsCount exFresh) + 1
   \<and> AddBuild exHost exConfig exExt [] exDisk exRegistry = (None, exDisk1, exRegistry1)
   \<and> BuildsCount exRegistry1 = BuildsCount exRegistry + 1
   \<and> ParseBuilds exHost (Inr exLog) exRestored None () = (2, None, exParsed, (), [exBuild, exBuild2])
   \<and> BuildsCount exParsed = 2"
proof -
  have small: "sint (BuildsCount exFresh) < 2 ^ 63 - 1"
    by code_simp
  have add: "AddBuild exHost exConfig exExt [] exDisk exRegistry = (None, exDisk1, exRegistry1)"
    by code_simp
  have ne: "BuildsCount exRegistry1 \<noteq> BuildsCount exRegistry"
    by code_simp
  have e: "builds exRestored = []"
    by code_simp
  have parse: "ParseBuilds exHost (Inr exLog) exRestored None () = (2, None, exParsed, (), [exBuild, exBuild2])"
    by code_simp
  note th = BuildsCount_steps [where build = exBuild and b = exFresh]
  from th have s1: "BuildsCount (addBuild exBuild exFresh) = BuildsCount exFresh + 1"
    by (rule conjunct1)
  have s2: "sint (BuildsCount (addBuild exBuild exFresh)) = sint (BuildsCount exFresh) + 1"
    by (rule th [THEN conjunct2, THEN conjunct1, THEN mp, OF small])
  have "BuildsCount exRegistry1 = BuildsCount exRegistry
      \<or> (None = (None :: error option) \<and> BuildsCount exRegistry1 = BuildsCount exRegistry + 1)"
    by (rule BuildsCount_steps [THEN conjunct2, THEN conjunct2, THEN conjunct1, THEN mp, OF add])
  with ne have s3: "BuildsCount exRegistry1 = BuildsCount exRegistry + 1"
    by blast
  have "if builds exRestored \<noteq> [] \<or> (\<exists>err. (Inr exLog :: osfile) = Inl err)
        then BuildsCount exParsed = BuildsCount exRestored
        else BuildsCount exParsed = 2 \<and> (2 :: go_int) = of_nat (length [exBuild, exBuild2])"
    by (rule BuildsCount_steps [THEN conjunct2, THEN conjunct2, THEN conjunct2, THEN mp, OF parse])
  with e have s4: "BuildsCount exParsed = 2"
    by simp
  show ?thesis
    by (intro conjI s1 small s2 add s3 parse s4)
qed

subsection \<open>GetLatestID\<close>

text \<open>
  C8. GetLatestID returns a string in every state of lastid.txt: the empty string when
  the file cannot be opened, and otherwise the first line of the file, without its
  newline, trimmed of spaces, carriage returns and newlines at both ends.
\<close>

theorem GetLatestID_never_fails:
  "GetLatestID d =
     (case lastidTxt d of
        Inl err \<Rightarrow> []
      | Inr content \<Rightarrow> Trim (takeWhile (\<lambda>c. c \<noteq> nl) content) [CHR '' '', cr, nl])
   \<and> (GetLatestID d = [] \<or>
        (hd (GetLatestID d) \<notin> set [CHR '' '', cr, nl] \<and>
         last (GetLatestID d) \<notin> set [CHR '' '', cr, nl]))"
proof (cases "lastidTxt d")
  case (Inl err)
  then show ?thesis by (simp add: GetLatestID_def)
next
  case (Inr content)
  then have "GetLatestID d = Trim (fst (ReadString content)) [CHR '' '', cr, nl]"
    by (simp add: GetLatestID_def)
  moreover have "Trim (fst (ReadString content)) [CHR '' '', cr, nl]
      = Trim (takeWhile (\<lambda>c. c \<noteq> nl) content) [CHR '' '', cr, nl]"
    by (rule firstLine_Trim) simp
  ultimately show ?thesis
    using Inr Trim_ends [of "takeWhile (\<lambda>c. c \<noteq> nl) content" "[CHR '' '', cr, nl]"]
    by simp
qed

theorem GetLatestID_never_fails_witness:
  "GetLatestID (exDisk\<lparr>lastidTxt := Inl (OSError ''not found'')\<rparr>) = []
   \<and> GetLatestID exDisk = ''0000000001''
   \<and> GetLatestID (exDisk\<lparr>lastidTxt := Inr ('' 0000000002 '' @ crlf @ ''0000000003'' @ crlf)\<rparr>)
       = ''0000000002''"
proof -
  have "GetLatestID (exDisk\<lparr>lastidTxt := Inl (OSError ''not found'')\<rparr>)
      = (case lastidTxt (exDisk\<lparr>lastidTxt := Inl (OSError ''not found'')\<rparr>) of
           Inl err \<Rightarrow> []
         | Inr content \<Rightarrow> Trim (takeWhile (\<lambda>c. c \<noteq> nl) content) [CHR '' '', cr, nl])"
    by (rule GetLatestID_never_fails [THEN conjunct1])
  also have "\<dots> = []"
    by code_simp
  finally have a: "GetLatestID (exDisk\<lparr>lastidTxt := Inl (OSError ''not found'')\<rparr>) = []" .
  have "GetLatestID exDisk
      = (case lastidTxt exDisk of
           Inl err \<Rightarrow> []
         | Inr content \<Rightarrow> Trim (takeWhile (\<lambda>c. c \<noteq> nl) content) [CHR '' '', cr, nl])"
    by (rule GetLatestID_never_fails [THEN conjunct1])
  also have "\<dots> = ''0000000001''"
    by code_simp
  finally have b: "GetLatestID exDisk = ''0000000001''" .
  have "GetLatestID (exDisk\<lparr>lastidTxt := Inr ('' 0000000002 '' @ crlf @ ''0000000003'' @ crlf)\<rparr>)
      = (case lastidTxt (exDisk\<lparr>lastidTxt := Inr ('' 0000000002 '' @ crlf @ ''0000000003'' @ crlf)\<rparr>) of
           Inl err \<Rightarrow> []
         | Inr content \<Rightarrow> Trim (takeWhile (\<lambda>c. c \<noteq> nl) content) [CHR '' '', cr, nl])"
    by (rule GetLatestID_never_fails [THEN conjunct1])
  also have "\<dots> = ''0000000002''"
    by code_simp
  finally have c: "GetLatestID (exDisk\<lparr>lastidTxt := Inr ('' 0000000002 '' @ crlf @ ''0000000003'' @ crlf)\<rparr>)
      = ''0000000002''" .
  show ?thesis
    by (intro conjI a b c)
qed

subsection \<open>Persist and Load\<close>

lemma Encode_fits: "list_all fieldFits (Encode b)"
  by (simp add: Encode_def fieldFits_def)

lemma fold_Encode:
  "BuildName (fold decodeField (Encode b) f) = (if BuildName b = [] then BuildName f else BuildName b)"
  "StoreName (fold decodeField (Encode b) f) = (if StoreName b = [] then StoreName f else StoreName b)"
  "BuildPath (fold decodeField (Encode b) f) = (if BuildPath b = [] then BuildPath f else BuildPath b)"
  "StorePath (fold decodeField (Encode b) f) = (if StorePath b = [] then StorePath f else StorePath b)"
  "UpdateDate (fold decodeField (Encode b) f) = (if UpdateDate b = [] then UpdateDate f else UpdateDate b)"
  "LatestBuild (fold decodeField (Encode b) f) = (if LatestBuild b = [] then LatestBuild f else LatestBuild b)"
  "BuildsCount (fold decodeField (Encode b) f) = (if BuildsCount b = 0 then BuildsCount f else BuildsCount b)"
  "builds (fold decodeField (Encode b) f) = builds f"
  "symbols (fold decodeField (Encode b) f) = symbols f"
  "symPath (fold decodeField (Encode b) f) = symPath f"
  by (simp_all add: Encode_def isZero_def decodeField_def)

lemma Decode_Encode: "Decode (Inr (Encode b)) f = (None, fold decodeField (Encode b) f)"
  by (simp add: Decode_def Encode_fits)

lemma Persist_result:
  "Persist host sx snaps b = (r, snaps') \<Longrightarrow>
     r = (case openSnapErr sx of Some err \<Rightarrow> Some err | None \<Rightarrow> encodeErr sx)
     \<and> (r = None \<longrightarrow>
          (\<exists>m. snaps' = snaps(Join host [StorePath b, adminDir, ''branch.bin'']
                   := Inr \<lparr>createdMode = m, snapBytes = Inr (Encode b)\<rparr>)))"
  by (auto simp: Persist_def Let_def split: option.splits)

lemma NewBranch_fields:
  "LatestBuild (NewBranch host cfg now bn sn) = []"
  "BuildsCount (NewBranch host cfg now bn sn) = 0"
  "BuildName (NewBranch host cfg now bn sn) = bn"
  "StoreName (NewBranch host cfg now bn sn) = sn"
  "UpdateDate (NewBranch host cfg now bn sn) = now"
  "builds (NewBranch host cfg now bn sn) = []"
  "symbols (NewBranch host cfg now bn sn) = []"
  "symPath (NewBranch host cfg now bn sn) = []"
  by (simp_all add: NewBranch_def NewBranch2_def Let_def Branch.extend_def BrBuilder.fields_def)

text \<open>
  The file that Persist creates is not one that the host \<open>exHostUnix\<close> lets be read:
  the owner's read bit is not in 666.
\<close>

lemma Load_unreadable_snapshot:
  "fst (Persist exHostUnix exSnapExt exSnapshots exParsed) = None
   \<and> Load exHostUnix (snd (Persist exHostUnix exSnapExt exSnapshots exParsed)) exFresh
       = (Some (OSError ''permission denied''), exFresh)"
  by code_simp

text \<open>
  C9 counterexample: the registry \<open>exUndated\<close>, made by NewBranch2, has no update date.
  Persist writes its snapshot and Load into the fresh registry \<open>exFresh\<close>, made by
  NewBranch for the same names, reads it without error; the update date afterwards is
  the fresh registry's, and the Branch record loaded is not the one persisted.
\<close>

theorem Persist_Load_undated_counterexample:
  "fst (Persist exHost exSnapExt exSnapshots exUndated) = None
   \<and> StorePath exFresh = StorePath exUndated
   \<and> Load exHost (snd (Persist exHost exSnapExt exSnapshots exUndated)) exFresh = (None, exFresh)
   \<and> UpdateDate exUndated = []
   \<and> UpdateDate exFresh = ''2017-07-01 08:00:00''
   \<and> Branch.truncate exFresh \<noteq> Branch.truncate exUndated"
  by code_simp

text \<open>
  C9, amended. When Persist has returned no error and the operating system lets the
  snapshot be opened for reading, Load into a fresh registry created by NewBranch at the
  record's store path returns no error, and the registry then holds the record's store
  path, latest-build pointer and count of builds, and each of build path, build name,
  store name and update date that is not empty in the record; one that is empty is not
  in the snapshot, and the fresh registry keeps its own value for it. So the Branch
  record loaded equals the one persisted exactly when each of these four fields is set
  in the record or empty in the fresh registry as well. Encoding a record and decoding
  it into a Branch of zero values gives the record back.
\<close>

theorem Persist_Load_roundtrip:
  assumes "Persist host sx snaps b = (None, snaps')"
    and "snaps' (Join host [StorePath b, adminDir, ''branch.bin'']) = Inr sf"
    and "OpenRead host (createdMode sf) = None"
    and "StorePath (NewBranch host cfg now bn sn) = StorePath b"
    and "Load host snaps' (NewBranch host cfg now bn sn) = (r', f)"
  shows "r' = None
     \<and> StorePath f = StorePath b
     \<and> LatestBuild f = LatestBuild b \<and> BuildsCount f = BuildsCount b
     \<and> BuildPath f =
         (if BuildPath b = [] then BuildPath (NewBranch host cfg now bn sn) else BuildPath b)
     \<and> BuildName f = (if BuildName b = [] then bn else BuildName b)
     \<and> StoreName f = (if StoreName b = [] then sn else StoreName b)
     \<and> UpdateDate f = (if UpdateDate b = [] then now else UpdateDate b)
     \<and> builds f = [] \<and> symbols f = [] \<and> symPath f = []
     \<and> (Branch.truncate f = Branch.truncate b \<longleftrightarrow>
          (BuildPath b \<noteq> [] \<or> BuildPath (NewBranch host cfg now bn sn) = [])
          \<and> (BuildName b \<noteq> [] \<or> bn = []) \<and> (StoreName b \<noteq> [] \<or> sn = [])
          \<and> (UpdateDate b \<noteq> [] \<or> now = []))
     \<and> snapBytes sf = Inr (Encode b)
     \<and> Decode (Inr (Encode b)) (Branch.extend zeroBranch flds)
         = (None, Branch.extend (Branch.truncate b) flds)"
proof -
  have z: "Decode (Inr (Encode b)) (Branch.extend zeroBranch flds)
      = (None, Branch.extend (Branch.truncate b) flds)"
    unfolding Decode_Encode
    by (simp add: Encode_def isZero_def decodeField_def zeroBranch_def Branch.extend_def
          Branch.truncate_def)
  from Persist_result [OF assms(1)] obtain m where
    s: "snaps' = snaps(Join host [StorePath b, adminDir, ''branch.bin'']
          := Inr \<lparr>createdMode = m, snapBytes = Inr (Encode b)\<rparr>)"
    by auto
  with assms(2) have sf: "sf = \<lparr>createdMode = m, snapBytes = Inr (Encode b)\<rparr>"
    by simp
  with assms(3) have rd: "OpenRead host m = None"
    by simp
  from assms(4,5) s rd have l: "r' = None"
    "f = fold decodeField (Encode b) (NewBranch host cfg now bn sn)"
    by (auto simp: Load_def Let_def Decode_Encode)
  have fields: "StorePath f = StorePath b" "LatestBuild f = LatestBuild b"
    "BuildsCount f = BuildsCount b"
    "BuildPath f = (if BuildPath b = [] then BuildPath (NewBranch host cfg now bn sn) else BuildPath b)"
    "BuildName f = (if BuildName b = [] then bn else BuildName b)"
    "StoreName f = (if StoreName b = [] then sn else StoreName b)"
    "UpdateDate f = (if UpdateDate b = [] then now else UpdateDate b)"
    "builds f = []" "symbols f = []" "symPath f = []"
    unfolding l using assms(4)
    by (simp_all add: fold_Encode NewBranch_fields)
  have eq: "Branch.truncate f = Branch.truncate b \<longleftrightarrow>
          (BuildPath b \<noteq> [] \<or> BuildPath (NewBranch host cfg now bn sn) = [])
          \<and> (BuildName b \<noteq> [] \<or> bn = []) \<and> (StoreName b \<noteq> [] \<or> sn = [])
          \<and> (UpdateDate b \<noteq> [] \<or> now = [])"
    using fields by (auto simp: Branch.truncate_def)
  show ?thesis
    using l(1) fields eq sf z by simp
qed

text \<open>
  The registry \<open>exParsed\<close>, with all its fields set, comes back as it was persisted.
\<close>

theorem Persist_Load_roundtrip_witness:
  "Persist exHost exSnapExt exSnapshots exParsed
     = (None, snd (Persist exHost exSnapExt exSnapshots exParsed))
   \<and> OpenRead exHost 666 = None
   \<and> StorePath exFresh = StorePath exParsed
   \<and> Load exHost (snd (Persist exHost exSnapExt exSnapshots exParsed)) exFresh = (None, exLoaded)
   \<and> StorePath exLoaded = StorePath exParsed \<and> BuildPath exLoaded = BuildPath exParsed
   \<and> LatestBuild exLoaded = LatestBuild exParsed \<and> BuildsCount exLoaded = BuildsCount exParsed
   \<and> Branch.truncate exLoaded = Branch.truncate exParsed"
proof -
  have p: "Persist exHost exSnapExt exSnapshots exParsed
     = (None, snd (Persist exHost exSnapExt exSnapshots exParsed))"
    by (simp add: Persist_def Let_def exSnapExt_def)
  have fl: "snd (Persist exHost exSnapExt exSnapshots exParsed)
        (Join exHost [StorePath exParsed, adminDir, ''branch.bin''])
      = Inr \<lparr>createdMode = 666, snapBytes = Inr (Encode exParsed)\<rparr>"
    by (simp add: Persist_def Let_def exSnapExt_def exSnapshots_def)
  have rd: "OpenRead exHost (createdMode \<lparr>createdMode = 666, snapBytes = Inr (Encode exParsed)\<rparr>) = None"
    by (simp add: exHost_def)
  have sp: "StorePath (NewBranch exHost exConfig ''2017-07-01 08:00:00'' ''UDPv6.5U2'' ''UDPv6.5U2'')
      = StorePath exParsed"
    by code_simp
  have l: "Load exHost (snd (Persist exHost exSnapExt exSnapshots exParsed))
        (NewBranch exHost exConfig ''2017-07-01 08:00:00'' ''UDPv6.5U2'' ''UDPv6.5U2'')
      = (None, exLoaded)"
    by code_simp
  have set: "BuildPath exParsed \<noteq> []" "BuildName exParsed \<noteq> []" "StoreName exParsed \<noteq> []"
    "UpdateDate exParsed \<noteq> []"
    by code_simp+
  note th = Persist_Load_roundtrip [OF p fl rd sp l]
  from th set have b: "StorePath exLoaded = StorePath exParsed"
    and c: "BuildPath exLoaded = BuildPath exParsed"
    and d: "LatestBuild exLoaded = LatestBuild exParsed"
    and e: "BuildsCount exLoaded = BuildsCount exParsed"
    and g: "Branch.truncate exLoaded = Branch.truncate exParsed"
    by simp_all
  have o: "OpenRead exHost 666 = None"
    by (simp add: exHost_def)
  show ?thesis
    using p o sp l b c d e g unfolding exFresh_def [symmetric]
    by (intro conjI)
qed

end
